theory Spec2Isabelle
  imports Complex_Main
begin

section \<open>The webview message handler (webview.tsx)\<close>

subsection \<open>Message values\<close>

text \<open>
  A message arrives as \<open>event.data\<close>, a structured clone of what the extension posted.
  Its values are modelled as JSON-like data; an object lists its properties, each name
  once. JavaScript numbers are idealised as reals, with \<open>JNaN\<close> for the one number that is
  falsy without being zero.
\<close>

datatype jsval =
    JUndefined
  | JNull
  | JBool bool
  | JNum real
  | JNaN
  | JStr string
  | JArr "jsval list"
  | JObj "(string \<times> jsval) list"

text \<open>JavaScript truthiness, as tested by \<open>!v\<close>.\<close>

fun truthy :: "jsval \<Rightarrow> bool" where
  "truthy JUndefined = False"
| "truthy JNull = False"
| "truthy (JBool b) = b"
| "truthy (JNum x) = (x \<noteq> 0)"
| "truthy JNaN = False"
| "truthy (JStr s) = (s \<noteq> [])"
| "truthy (JArr xs) = True"
| "truthy (JObj ps) = True"

text \<open>\<open>typeof v === "number"\<close>.\<close>

fun isNumber :: "jsval \<Rightarrow> bool" where
  "isNumber (JNum x) = True"
| "isNumber JNaN = True"
| "isNumber v = False"

text \<open>
  Reading a named data property. Only objects carry the names read in this file
  (\<open>command\<close>, \<open>buckets\<close>, \<open>shotCount\<close>, and \<open>0\<close>, \<open>1\<close> of a Map entry given as an
  object); on \<open>undefined\<close> and \<open>null\<close> the optional chaining of \<open>message?.command\<close>
  yields \<open>undefined\<close> as well.
\<close>

fun getProp :: "jsval \<Rightarrow> string \<Rightarrow> jsval" where
  "getProp (JObj ps) k = (case map_of ps k of None \<Rightarrow> JUndefined | Some v \<Rightarrow> v)"
| "getProp v k = JUndefined"

subsection \<open>The Map constructor\<close>

datatype js_error = TypeError

type_synonym jsmap = "(jsval \<times> jsval) list"

text \<open>
  \<open>Map.prototype.set\<close>: an existing key keeps its place and gets the new value, a new key
  goes to the end. Keys are compared structurally, which is what JavaScript does for the
  strings a bucket list carries.
\<close>

fun mapSet :: "jsval \<Rightarrow> jsval \<Rightarrow> jsmap \<Rightarrow> jsmap" where
  "mapSet k v [] = [(k, v)]"
| "mapSet k v ((k', v') # m) = (if k' = k then (k', v) # m else (k', v') # mapSet k v m)"

fun element :: "jsval list \<Rightarrow> nat \<Rightarrow> jsval" where
  "element xs i = (if i < length xs then xs ! i else JUndefined)"

text \<open>An entry must be an object; its properties \<open>0\<close> and \<open>1\<close> are the key and the value.\<close>

fun entryOf :: "jsval \<Rightarrow> js_error + (jsval \<times> jsval)" where
  "entryOf (JArr xs) = Inr (element xs 0, element xs 1)"
| "entryOf (JObj ps) = Inr (getProp (JObj ps) ''0'', getProp (JObj ps) ''1'')"
| "entryOf v = Inl TypeError"

fun addEntries :: "jsval list \<Rightarrow> jsmap \<Rightarrow> js_error + jsmap" where
  "addEntries [] m = Inr m"
| "addEntries (item # items) m =
     (case entryOf item of
        Inl e \<Rightarrow> Inl e
      | Inr (k, v) \<Rightarrow> addEntries items (mapSet k v m))"

text \<open>
  \<open>new Map(iterable)\<close>: \<open>undefined\<close> and \<open>null\<close> give the empty map, an array is read
  entry by entry, a string iterates over its characters (none of which is an entry
  object), and every other value is not iterable.
\<close>

fun newMap :: "jsval \<Rightarrow> js_error + jsmap" where
  "newMap JUndefined = Inr []"
| "newMap JNull = Inr []"
| "newMap (JArr items) = addEntries items []"
| "newMap (JStr s) = (if s = [] then Inr [] else Inl TypeError)"
| "newMap v = Inl TypeError"

subsection \<open>Module state and \<open>onMessage\<close>\<close>

text \<open>What \<open>App\<close> puts on the page: the histogram when \<open>shotCount\<close> is truthy, the estimates
  when \<open>showEstimates\<close> is set.\<close>

record app_view =
  histogramView :: "(jsmap \<times> jsval) option"
  estimatesView :: bool

datatype console_entry =
    ErrorUnknownMessage jsval
  | ErrorNoBuckets jsval
  | LogUnknownCommand jsval

text \<open>
  The module-level variables \<open>histogramData\<close>, \<open>shotCount\<close> and \<open>showEstimates\<close>,
  together with what the handler does to the outside: the console lines it writes and
  the views it renders into the document body, oldest first.
\<close>

record webview =
  histogramData :: jsmap
  shotCount :: jsval
  showEstimates :: bool
  console :: "console_entry list"
  rendered :: "app_view list"

definition initialWebview :: webview where
  "initialWebview =
     \<lparr>histogramData = [], shotCount = JNum 0, showEstimates = False,
      console = [], rendered = []\<rparr>"

definition App :: "webview \<Rightarrow> app_view" where
  "App w =
     \<lparr>histogramView = (if truthy (shotCount w) then Some (histogramData w, shotCount w) else None),
      estimatesView = showEstimates w\<rparr>"

text \<open>\<open>render(<App />, document.body)\<close>.\<close>

definition renderApp :: "webview \<Rightarrow> webview" where
  "renderApp w = w\<lparr>rendered := rendered w @ [App w]\<rparr>"

text \<open>
  \<open>onMessage\<close>, lines 23 to 50, applied to \<open>event.data\<close>. \<open>Inl\<close> is the exception that
  \<open>new Map(buckets)\<close> throws on a value it cannot iterate; it leaves the handler before
  any assignment.
\<close>

definition onMessage :: "jsval \<Rightarrow> webview \<Rightarrow> js_error + webview" where
  "onMessage message w =
     (if \<not> truthy (getProp message ''command'') then
        Inr (w\<lparr>console := console w @ [ErrorUnknownMessage message]\<rparr>)
      else if getProp message ''command'' = JStr ''update'' then
        (if \<not> truthy (getProp message ''buckets'') \<or> \<not> isNumber (getProp message ''shotCount'') then
           Inr (w\<lparr>console := console w @ [ErrorNoBuckets message]\<rparr>)
         else
           (case newMap (getProp message ''buckets'') of
              Inl e \<Rightarrow> Inl e
            | Inr buckets \<Rightarrow>
                Inr (renderApp (w\<lparr>histogramData := buckets,
                                   shotCount := getProp message ''shotCount''\<rparr>))))
      else if getProp message ''command'' = JStr ''estimate'' then
        Inr (renderApp (w\<lparr>showEstimates := True\<rparr>))
      else
        Inr (w\<lparr>console := console w @ [LogUnknownCommand (getProp message ''command'')]\<rparr>))"

text \<open>
  The window delivers one message after another; a handler that threw has changed
  nothing, and the next message finds the state as it was.
\<close>

definition deliver :: "webview \<Rightarrow> jsval \<Rightarrow> webview" where
  "deliver w message = (case onMessage message w of Inl e \<Rightarrow> w | Inr w' \<Rightarrow> w')"

definition deliverAll :: "jsval list \<Rightarrow> webview \<Rightarrow> webview" where
  "deliverAll messages w = foldl deliver w messages"


section \<open>The Bloch sphere (second file of the source)\<close>

subsection \<open>Easing and colours\<close>

text \<open>
  JavaScript numbers are idealised as reals throughout: \<open>Math.PI\<close> is \<open>pi\<close>,
  \<open>Math.cos\<close> and \<open>Math.sin\<close> are \<open>cos\<close> and \<open>sin\<close>.
\<close>

definition easeInOutSine :: "real \<Rightarrow> real" where
  "easeInOutSine x = - (cos (pi * x) - 1) / 2"

definition easeOutSine :: "real \<Rightarrow> real" where
  "easeOutSine x = sin ((x * pi) / 2)"

text \<open>
  The colour of a marker's material: a number given literally, or the result of the call
  \<open>hslToRgb(h, s, l)\<close>. \<open>hslToRgb\<close> and \<open>hueToRgb\<close> (lines 182 to 208) compute the three
  channels in doubles and cut each to an integer before packing them; where a channel
  lands next to a whole number the result depends on the rounding of the doubles, which
  reals do not reproduce. The call is therefore kept with its arguments and not
  evaluated.
\<close>

datatype material_color = HexColor int | HslToRgb real real real

definition rotationTimeMs :: real where
  "rotationTimeMs = 750"

subsection \<open>Scene objects\<close>

datatype vector3 = Vector3 real real real

datatype quaternion = Quaternion real real real real

definition identityQuaternion :: quaternion where
  "identityQuaternion = Quaternion 0 0 0 1"

text \<open>
  A point given in world space as a local point turned by a rotation, which is what
  \<open>position.set(0, 5, 0)\<close> followed by \<open>position.applyQuaternion(val.pos)\<close> leaves in a
  marker. The arithmetic of \<open>applyQuaternion\<close> belongs to three.js and is not unfolded.
\<close>

datatype world_point = AppliedQuaternion vector3 quaternion

text \<open>
  A trail marker (\<open>trackBall\<close>), a mesh created by the per-frame callback. \<open>meshId\<close>
  stands for the identity of the JavaScript object, \<open>color\<close> for the colour of its
  material and \<open>scale\<close> for the scalar its scale was last set to.
\<close>

record mesh =
  meshId :: nat
  position :: world_point
  color :: material_color
  scale :: real

text \<open>
  A keyframe of a rotation path, \<open>{pos, ref}\<close>. Keyframes are objects the rotation engine
  owns and the renderer writes to (\<open>val.ref = trackBall\<close>), so they live in a store,
  addressed by numbers; a path is a list of addresses. \<open>ref\<close> holds the identity of the
  marker drawn for the keyframe, if any.
\<close>

record keyframe =
  pos :: quaternion
  ref :: "nat option"

type_synonym keyframe_store = "nat \<Rightarrow> keyframe"

subsection \<open>The rotation engine (\<open>Rotations\<close> of cplx.js)\<close>

text \<open>
  The class \<open>Rotations\<close> and the type \<open>AppliedGate\<close> are imported from \<open>../src/cplx.js\<close>,
  which is not among the sources. The renderer is therefore modelled over an arbitrary
  engine: \<open>'g\<close> is the type of applied gates, \<open>'r\<close> the engine's private state, and each
  method is a function that may read and change that state and the keyframe store.
  \<open>getRotationAtPercent\<close> returns \<open>{pos, path}\<close>.
\<close>

record ('g, 'r) Rotations =
  newRotations :: "nat \<Rightarrow> 'r \<times> keyframe_store"
  rotationsRotateX :: "real \<Rightarrow> 'r \<times> keyframe_store \<Rightarrow> 'g \<times> 'r \<times> keyframe_store"
  rotationsRotateY :: "real \<Rightarrow> 'r \<times> keyframe_store \<Rightarrow> 'g \<times> 'r \<times> keyframe_store"
  rotationsRotateZ :: "real \<Rightarrow> 'r \<times> keyframe_store \<Rightarrow> 'g \<times> 'r \<times> keyframe_store"
  rotationsRotateH :: "real \<Rightarrow> 'r \<times> keyframe_store \<Rightarrow> 'g \<times> 'r \<times> keyframe_store"
  getRotationAtPercent ::
    "'g \<Rightarrow> real \<Rightarrow> 'r \<times> keyframe_store \<Rightarrow> (quaternion \<times> nat list) \<times> 'r \<times> keyframe_store"
  rotationsReset :: "'r \<times> keyframe_store \<Rightarrow> 'r \<times> keyframe_store"

subsection \<open>\<open>BlochRenderer\<close>\<close>

text \<open>
  The fields of the class that the animation reads or writes, and what it asks of the
  host. \<open>qubit\<close> is \<open>qubit.quaternion\<close>, \<open>trail\<close> is \<open>trail.children\<close>. \<open>currentGate\<close>
  and \<open>startTime\<close> are the variables closed over by the \<open>processQueue\<close> that is
  scheduled; a new closure starts them at \<open>undefined\<close> and \<open>0\<close>. \<open>frameHandle\<close> is the
  last handle \<open>requestAnimationFrame\<close> gave out (handles count up from 1 and are
  never 0),
  \<open>meshCount\<close> the number of markers created so far, \<open>renderCount\<close> the number of calls
  of \<open>render()\<close>.
\<close>

record ('g, 'r) BlochRenderer =
  qubit :: quaternion
  trail :: "mesh list"
  animationCallbackId :: nat
  gateQueue :: "'g list"
  rotations :: 'r
  keyframes :: keyframe_store
  currentGate :: "'g option"
  startTime :: real
  frameHandle :: nat
  meshCount :: nat
  renderCount :: nat
  scenePosition :: vector3
  cameraPosition :: vector3

text \<open>The constructor, as far as these fields go (lines 269 to 390).\<close>

definition newBlochRenderer :: "('g, 'r) Rotations \<Rightarrow> ('g, 'r) BlochRenderer" where
  "newBlochRenderer R =
     (let (r, kf) = newRotations R 64
      in \<lparr>qubit = identityQuaternion, trail = [], animationCallbackId = 0, gateQueue = [],
          rotations = r, keyframes = kf, currentGate = None, startTime = 0,
          frameHandle = 0, meshCount = 0, renderCount = 0,
          scenePosition = Vector3 0 0 0, cameraPosition = Vector3 4 4 27\<rparr>)"

definition render :: "('g, 'r) BlochRenderer \<Rightarrow> ('g, 'r) BlochRenderer" where
  "render b = b\<lparr>renderCount := Suc (renderCount b)\<rparr>"

text \<open>\<open>this.animationCallbackId = requestAnimationFrame(processQueue)\<close>, line 459.\<close>

definition requestAnimationFrame :: "('g, 'r) BlochRenderer \<Rightarrow> ('g, 'r) BlochRenderer" where
  "requestAnimationFrame b =
     b\<lparr>frameHandle := Suc (frameHandle b), animationCallbackId := Suc (frameHandle b)\<rparr>"

text \<open>
  Lines 401 to 410: the gate this frame animates. With no gate active the head of the
  queue is shifted out and the clock is read for its start time (\<open>tpop\<close> is that
  reading); \<open>None\<close> is the empty queue.
\<close>

definition popGate ::
  "real \<Rightarrow> ('g, 'r) BlochRenderer \<Rightarrow> ('g \<times> ('g, 'r) BlochRenderer) option" where
  "popGate tpop b =
     (case currentGate b of
        Some g \<Rightarrow> Some (g, b)
      | None \<Rightarrow>
          (case gateQueue b of
             [] \<Rightarrow> None
           | g # rest \<Rightarrow> Some (g, b\<lparr>gateQueue := rest, currentGate := Some g, startTime := tpop\<rparr>)))"

text \<open>Line 413, with \<open>tnow\<close> the clock reading taken there.\<close>

definition elapsedFraction :: "real \<Rightarrow> real \<Rightarrow> real" where
  "elapsedFraction tnow start = (tnow - start) / rotationTimeMs"

text \<open>Line 416.\<close>

definition easedProgress :: "real \<Rightarrow> real" where
  "easedProgress x = (if x < 1 then easeInOutSine x else 1)"

text \<open>Lines 424 to 440, the body of \<open>path.forEach\<close> for the keyframe at address \<open>a\<close>.\<close>

definition drawKeyframe :: "nat \<Rightarrow> ('g, 'r) BlochRenderer \<Rightarrow> ('g, 'r) BlochRenderer" where
  "drawKeyframe a b =
     (let val = keyframes b a
      in if ref val \<noteq> None then b
         else
           let trackBall =
                 \<lparr>meshId = meshCount b,
                  position = AppliedQuaternion (Vector3 0 5 0) (pos val),
                  color = HexColor 0x808080, scale = 1\<rparr>
           in b\<lparr>meshCount := Suc (meshCount b),
                trail := trail b @ [trackBall],
                keyframes := (keyframes b)(a := val\<lparr>ref := Some (meshId trackBall)\<rparr>)\<rparr>)"

fun drawPath :: "nat list \<Rightarrow> ('g, 'r) BlochRenderer \<Rightarrow> ('g, 'r) BlochRenderer" where
  "drawPath [] b = b"
| "drawPath (a # path) b = drawPath path (drawKeyframe a b)"

text \<open>Lines 446 to 452: \<open>sat\<close> for the child at \<open>idx\<close> of \<open>n\<close> children, and the loop.\<close>

definition fadeWeight :: "nat \<Rightarrow> nat \<Rightarrow> real" where
  "fadeWeight idx n = easeOutSine ((real idx + 1) / real n)"

definition fadeTrail :: "mesh list \<Rightarrow> mesh list" where
  "fadeTrail arr =
     map (\<lambda>(idx, ball).
            let sat = fadeWeight idx (length arr)
            in ball\<lparr>color := HslToRgb 0.6 sat 0.5, scale := sat + 0.5\<rparr>)
         (enumerate 0 arr)"

text \<open>
  \<open>processQueue\<close>, lines 400 to 460: one run of the per-frame callback. \<open>tpop\<close> and
  \<open>tnow\<close> are the values \<open>performance.now()\<close> returns at lines 408 and 413.
\<close>

definition processQueue ::
  "('g, 'r) Rotations \<Rightarrow> real \<Rightarrow> real \<Rightarrow> ('g, 'r) BlochRenderer \<Rightarrow> ('g, 'r) BlochRenderer" where
  "processQueue R tpop tnow b =
     (case popGate tpop b of
        None \<Rightarrow> b\<lparr>animationCallbackId := 0\<rparr>
      | Some (gate, b1) \<Rightarrow>
          let x = elapsedFraction tnow (startTime b1);
              t = easedProgress x;
              ((p, path), (r, kf)) = getRotationAtPercent R gate t (rotations b1, keyframes b1);
              b2 = drawPath path (b1\<lparr>rotations := r, keyframes := kf\<rparr>);
              b3 = b2\<lparr>qubit := p\<rparr>;
              b4 = b3\<lparr>trail := fadeTrail (trail b3)\<rparr>;
              b5 = render b4;
              b6 = (if t \<ge> 1 then b5\<lparr>currentGate := None\<rparr> else b5)
          in requestAnimationFrame b6)"

text \<open>\<open>queueGate\<close>, lines 392 to 464.\<close>

definition queueGate ::
  "('g, 'r) Rotations \<Rightarrow> 'g \<Rightarrow> real \<Rightarrow> real \<Rightarrow> ('g, 'r) BlochRenderer \<Rightarrow> ('g, 'r) BlochRenderer" where
  "queueGate R gate tpop tnow b =
     (let b1 = b\<lparr>gateQueue := gateQueue b @ [gate]\<rparr>
      in if animationCallbackId b1 \<noteq> 0 then b1
         else processQueue R tpop tnow (b1\<lparr>currentGate := None, startTime := 0\<rparr>))"

text \<open>
  The host runs the scheduled callback at the next frame. A callback is scheduled exactly
  when \<open>animationCallbackId\<close> is not 0: \<open>processQueue\<close> either schedules itself and stores
  the handle, or stores 0 and returns.
\<close>

definition animationFrame ::
  "('g, 'r) Rotations \<Rightarrow> real \<Rightarrow> real \<Rightarrow> ('g, 'r) BlochRenderer \<Rightarrow> ('g, 'r) BlochRenderer" where
  "animationFrame R tpop tnow b =
     (if animationCallbackId b = 0 then b else processQueue R tpop tnow b)"

definition rotateX ::
  "('g, 'r) Rotations \<Rightarrow> real \<Rightarrow> real \<Rightarrow> real \<Rightarrow> ('g, 'r) BlochRenderer \<Rightarrow> ('g, 'r) BlochRenderer" where
  "rotateX R angle tpop tnow b =
     (let (gate, r, kf) = rotationsRotateX R angle (rotations b, keyframes b)
      in queueGate R gate tpop tnow (b\<lparr>rotations := r, keyframes := kf\<rparr>))"

definition rotateY ::
  "('g, 'r) Rotations \<Rightarrow> real \<Rightarrow> real \<Rightarrow> real \<Rightarrow> ('g, 'r) BlochRenderer \<Rightarrow> ('g, 'r) BlochRenderer" where
  "rotateY R angle tpop tnow b =
     (let (gate, r, kf) = rotationsRotateY R angle (rotations b, keyframes b)
      in queueGate R gate tpop tnow (b\<lparr>rotations := r, keyframes := kf\<rparr>))"

definition rotateZ ::
  "('g, 'r) Rotations \<Rightarrow> real \<Rightarrow> real \<Rightarrow> real \<Rightarrow> ('g, 'r) BlochRenderer \<Rightarrow> ('g, 'r) BlochRenderer" where
  "rotateZ R angle tpop tnow b =
     (let (gate, r, kf) = rotationsRotateZ R angle (rotations b, keyframes b)
      in queueGate R gate tpop tnow (b\<lparr>rotations := r, keyframes := kf\<rparr>))"

definition rotateH ::
  "('g, 'r) Rotations \<Rightarrow> real \<Rightarrow> real \<Rightarrow> real \<Rightarrow> ('g, 'r) BlochRenderer \<Rightarrow> ('g, 'r) BlochRenderer" where
  "rotateH R angle tpop tnow b =
     (let (gate, r, kf) = rotationsRotateH R angle (rotations b, keyframes b)
      in queueGate R gate tpop tnow (b\<lparr>rotations := r, keyframes := kf\<rparr>))"

text \<open>
  \<open>BlochRenderer.reset\<close>, lines 482 to 491. \<open>qubit.rotation.set(0, 0, 0)\<close> turns the qubit
  back to the identity; \<open>controls.reset()\<close> and \<open>camera.lookAt\<close> act on the camera only.
\<close>

definition rendererReset ::
  "('g, 'r) Rotations \<Rightarrow> ('g, 'r) BlochRenderer \<Rightarrow> ('g, 'r) BlochRenderer" where
  "rendererReset R b =
     (let (r, kf) = rotationsReset R (rotations b, keyframes b)
      in render (b\<lparr>rotations := r, keyframes := kf, trail := [],
                   scenePosition := Vector3 0 0 0, qubit := identityQuaternion,
                   cameraPosition := Vector3 4 4 27\<rparr>))"


subsection \<open>The \<open>BlochSphere\<close> component\<close>

type_synonym vec2 = "complex \<times> complex"

type_synonym mat2 = "(complex \<times> complex) \<times> (complex \<times> complex)"

text \<open>
  Modelled from the spec: \<open>Ket0\<close> is imported from \<open>../src/cplx.js\<close>, which is not among
  the sources. The state vector is the pair of amplitudes \<open>(a, b)\<close>, created at
  \<open>Ket0 = (1, 0)\<close>.
\<close>

definition Ket0 :: vec2 where
  "Ket0 = (1, 0)"

text \<open>
  Modelled from the spec: \<open>vec2\<close> of cplx.js, absent as well. The state vector is
  replaced, never mutated, and \<open>reset\<close>, which stores \<open>vec2(Ket0)\<close>, returns it to
  \<open>(1, 0)\<close>: \<open>vec2\<close> yields a vector with the amplitudes of the one it is given.
\<close>

definition vec2 :: "vec2 \<Rightarrow> vec2" where
  "vec2 v = v"

text \<open>
  Modelled from the spec: \<open>mulVec2\<close> of cplx.js, the standard complex matrix-vector
  product.
\<close>

definition mulVec2 :: "mat2 \<Rightarrow> vec2 \<Rightarrow> vec2" where
  "mulVec2 m v =
     (case m of ((m00, m01), (m10, m11)) \<Rightarrow>
        (case v of (a, b) \<Rightarrow> (m00 * a + m01 * b, m10 * a + m11 * b)))"

text \<open>
  Modelled from the spec: the six gate matrices of cplx.js, with the values of section
  4.2, each given by its two rows: X is \<open>(0, 1), (1, 0)\<close>; Y is \<open>(0, -i), (i, 0)\<close>;
  Z is \<open>(1, 0), (0, -1)\<close>; S is \<open>(1, 0), (0, i)\<close>; T is \<open>(1, 0), (0, e^(i pi/4))\<close>;
  H is \<open>1/sqrt 2\<close> times \<open>(1, 1), (1, -1)\<close>.
\<close>

definition PauliX :: mat2 where
  "PauliX = ((0, 1), (1, 0))"

definition PauliY :: mat2 where
  "PauliY = ((0, - \<i>), (\<i>, 0))"

definition PauliZ :: mat2 where
  "PauliZ = ((1, 0), (0, - 1))"

definition SGate :: mat2 where
  "SGate = ((1, 0), (0, \<i>))"

definition TGate :: mat2 where
  "TGate = ((1, 0), (0, cis (pi / 4)))"

definition Hadamard :: mat2 where
  "Hadamard =
     ((complex_of_real (1 / sqrt 2), complex_of_real (1 / sqrt 2)),
      (complex_of_real (1 / sqrt 2), - complex_of_real (1 / sqrt 2)))"

text \<open>
  An entry of \<open>gateArray\<close>. The string \<open>getLaTeX\<close> builds is determined by the gate name
  (which also selects the matrix text of \<open>gateLaTeX\<close>), the old state and the new state;
  the text itself is for display only and is not unfolded.
\<close>

datatype equation = Equation string vec2 vec2

definition getLaTeX :: "string \<Rightarrow> vec2 \<Rightarrow> vec2 \<Rightarrow> equation" where
  "getLaTeX gateName oldState newState = Equation gateName oldState newState"

text \<open>
  The component's hooks: \<open>renderer.current\<close> (\<open>None\<close> is \<open>null\<close>), the three pieces of
  state \<open>gates\<close>, \<open>gateArray\<close> and \<open>state\<close>, and the lines written by \<open>console.error\<close>.
  A handler reads the values of the last render and sets each piece at most once, so the
  setters are modelled as assignments.
\<close>

record ('g, 'r) BlochSphere =
  renderer :: "('g, 'r) BlochRenderer option"
  gates :: "string list"
  gateArray :: "equation list"
  state :: vec2
  consoleErrors :: "string list"

text \<open>The component once mounted on its canvas (lines 503 to 515).\<close>

definition mountBlochSphere :: "('g, 'r) Rotations \<Rightarrow> string list \<Rightarrow> ('g, 'r) BlochSphere" where
  "mountBlochSphere R propsGates =
     \<lparr>renderer = Some (newBlochRenderer R), gates = propsGates, gateArray = [],
      state = Ket0, consoleErrors = []\<rparr>"

text \<open>
  \<open>rotate\<close>, lines 534 to 592, named \<open>rotateGate\<close> here because lists have a \<open>rotate\<close>
  already. \<open>tpop\<close> and \<open>tnow\<close> are handed on to \<open>queueGate\<close>.
\<close>

definition rotateGate ::
  "('g, 'r) Rotations \<Rightarrow> string \<Rightarrow> real \<Rightarrow> real \<Rightarrow> ('g, 'r) BlochSphere \<Rightarrow> ('g, 'r) BlochSphere" where
  "rotateGate R gate tpop tnow c =
     (let (c1, newState) =
        (case renderer c of
           None \<Rightarrow> (c, vec2 (state c))
         | Some b \<Rightarrow>
             if gate = ''X'' then
               (let newState = mulVec2 PauliX (state c)
                in (c\<lparr>renderer := Some (rotateX R pi tpop tnow b),
                      gateArray := gateArray c @ [getLaTeX ''X'' (state c) newState]\<rparr>, newState))
             else if gate = ''Y'' then
               (let newState = mulVec2 PauliY (state c)
                in (c\<lparr>renderer := Some (rotateY R pi tpop tnow b),
                      gateArray := gateArray c @ [getLaTeX ''Y'' (state c) newState]\<rparr>, newState))
             else if gate = ''Z'' then
               (let newState = mulVec2 PauliZ (state c)
                in (c\<lparr>renderer := Some (rotateZ R pi tpop tnow b),
                      gateArray := gateArray c @ [getLaTeX ''Z'' (state c) newState]\<rparr>, newState))
             else if gate = ''S'' then
               (let newState = mulVec2 SGate (state c)
                in (c\<lparr>renderer := Some (rotateZ R (pi / 2) tpop tnow b),
                      gateArray := gateArray c @ [getLaTeX ''S'' (state c) newState]\<rparr>, newState))
             else if gate = ''T'' then
               (let newState = mulVec2 TGate (state c)
                in (c\<lparr>renderer := Some (rotateZ R (pi / 4) tpop tnow b),
                      gateArray := gateArray c @ [getLaTeX ''T'' (state c) newState]\<rparr>, newState))
             else if gate = ''H'' then
               (let newState = mulVec2 Hadamard (state c)
                in (c\<lparr>renderer := Some (rotateH R pi tpop tnow b),
                      gateArray := gateArray c @ [getLaTeX ''H'' (state c) newState]\<rparr>, newState))
             else
               (c\<lparr>consoleErrors := consoleErrors c @ [''Unknown gate: '' @ gate]\<rparr>,
                vec2 (state c)))
      in c1\<lparr>state := newState, gates := gates c @ [gate]\<rparr>)"

text \<open>\<open>reset\<close> of the component, lines 594 to 601.\<close>

definition reset :: "('g, 'r) Rotations \<Rightarrow> ('g, 'r) BlochSphere \<Rightarrow> ('g, 'r) BlochSphere" where
  "reset R c =
     (let c1 = c\<lparr>gates := [], gateArray := [], state := vec2 Ket0\<rparr>
      in case renderer c1 of
           None \<Rightarrow> c1
         | Some b \<Rightarrow> c1\<lparr>renderer := Some (rendererReset R b)\<rparr>)"

subsection \<open>Runs of the animation queue\<close>

text \<open>
  What happens to a renderer over time: a caller queues a gate, or the host runs a frame.
  Each carries the clock readings the callback would take.
\<close>

datatype 'g action = QueueGate 'g real real | AnimationFrame real real

fun perform ::
  "('g, 'r) Rotations \<Rightarrow> 'g action \<Rightarrow> ('g, 'r) BlochRenderer \<Rightarrow> ('g, 'r) BlochRenderer" where
  "perform R (QueueGate gate tpop tnow) b = queueGate R gate tpop tnow b"
| "perform R (AnimationFrame tpop tnow) b = animationFrame R tpop tnow b"

fun run ::
  "('g, 'r) Rotations \<Rightarrow> 'g action list \<Rightarrow> ('g, 'r) BlochRenderer \<Rightarrow> ('g, 'r) BlochRenderer" where
  "run R [] b = b"
| "run R (a # as) b = run R as (perform R a b)"

text \<open>
  The gate and the progress \<open>t\<close> that a run of \<open>processQueue\<close> on \<open>b\<close> animates, that is,
  hands to \<open>getRotationAtPercent\<close>; nothing when it finds the queue empty.
\<close>

definition frameShown :: "real \<Rightarrow> real \<Rightarrow> ('g, 'r) BlochRenderer \<Rightarrow> ('g \<times> real) list" where
  "frameShown tpop tnow b =
     (case popGate tpop b of
        None \<Rightarrow> []
      | Some (gate, b1) \<Rightarrow> [(gate, easedProgress (elapsedFraction tnow (startTime b1)))])"

fun shown :: "'g action \<Rightarrow> ('g, 'r) BlochRenderer \<Rightarrow> ('g \<times> real) list" where
  "shown (QueueGate gate tpop tnow) b =
     (if animationCallbackId b \<noteq> 0 then []
      else frameShown tpop tnow
             (b\<lparr>gateQueue := gateQueue b @ [gate], currentGate := None, startTime := 0\<rparr>))"
| "shown (AnimationFrame tpop tnow) b =
     (if animationCallbackId b = 0 then [] else frameShown tpop tnow b)"

text \<open>The frames a run animates, in order, each with its gate and progress.\<close>

fun trace ::
  "('g, 'r) Rotations \<Rightarrow> 'g action list \<Rightarrow> ('g, 'r) BlochRenderer \<Rightarrow> ('g \<times> real) list" where
  "trace R [] b = []"
| "trace R (a # as) b = shown a b @ trace R as (perform R a b)"

text \<open>A frame with \<open>t \<ge> 1\<close> is the last of its gate (line 457).\<close>

definition completes :: "'g \<times> real \<Rightarrow> bool" where
  "completes e = (snd e \<ge> 1)"

fun submitted :: "'g action list \<Rightarrow> 'g list" where
  "submitted [] = []"
| "submitted (QueueGate gate tpop tnow # as) = gate # submitted as"
| "submitted (AnimationFrame tpop tnow # as) = submitted as"

text \<open>The gates inside the machine: the active one, if any, then the pending ones.\<close>

definition inFlight :: "('g, 'r) BlochRenderer \<Rightarrow> 'g list" where
  "inFlight b = (case currentGate b of None \<Rightarrow> [] | Some g \<Rightarrow> [g]) @ gateQueue b"

text \<open>With no callback scheduled there is no closure, hence no active gate.\<close>

definition closureFree :: "('g, 'r) BlochRenderer \<Rightarrow> bool" where
  "closureFree b = (animationCallbackId b \<noteq> 0 \<or> currentGate b = None)"

subsection \<open>A small rotation engine\<close>

text \<open>
  An instance of the engine interface, used to run the model on concrete inputs. A gate is
  the name of its axis with its angle; every rotation has the same path, which visits the
  keyframes at addresses 0 and 1 and then the one at 0 again.
\<close>

definition sampleRotations :: "(string \<times> real, unit) Rotations" where
  "sampleRotations =
     \<lparr>newRotations = (\<lambda>n. ((), (\<lambda>a. \<lparr>pos = identityQuaternion, ref = None\<rparr>))),
      rotationsRotateX = (\<lambda>angle w. ((''x'', angle), w)),
      rotationsRotateY = (\<lambda>angle w. ((''y'', angle), w)),
      rotationsRotateZ = (\<lambda>angle w. ((''z'', angle), w)),
      rotationsRotateH = (\<lambda>angle w. ((''h'', angle), w)),
      getRotationAtPercent = (\<lambda>gate t w. ((identityQuaternion, [0, 1, 0]), w)),
      rotationsReset = (\<lambda>w. w)\<rparr>"


section \<open>Properties of the message handler\<close>

lemma deliver_keeps_estimates: "showEstimates w \<Longrightarrow> showEstimates (deliver w message)"
  by (auto simp: deliver_def onMessage_def renderApp_def split: sum.splits if_splits)

lemma deliverAll_keeps_estimates: "showEstimates w \<Longrightarrow> showEstimates (deliverAll messages w)"
  unfolding deliverAll_def
  by (induction messages arbitrary: w) (simp_all add: deliver_keeps_estimates)

text \<open>
  C8. A message whose \<open>command\<close> is missing (or otherwise falsy), a message whose command
  is neither \<open>update\<close> nor \<open>estimate\<close>, and an \<open>update\<close> whose \<open>buckets\<close> is missing (or
  falsy) or whose \<open>shotCount\<close> is not a number: the handler returns normally, leaves
  \<open>histogramData\<close>, \<open>shotCount\<close> and \<open>showEstimates\<close> as they were, and renders
  nothing.
\<close>

theorem onMessage_rejects:
  assumes "\<not> truthy (getProp message ''command'')
         \<or> (getProp message ''command'' \<noteq> JStr ''update''
             \<and> getProp message ''command'' \<noteq> JStr ''estimate'')
         \<or> (getProp message ''command'' = JStr ''update''
             \<and> (\<not> truthy (getProp message ''buckets'')
                 \<or> \<not> isNumber (getProp message ''shotCount'')))"
  shows "\<exists>w'. onMessage message w = Inr w'
            \<and> histogramData w' = histogramData w \<and> shotCount w' = shotCount w
            \<and> showEstimates w' = showEstimates w \<and> rendered w' = rendered w"
  using assms by (auto simp: onMessage_def)

theorem onMessage_rejects_witness:
  "(let w = initialWebview\<lparr>showEstimates := True\<rparr>;
        message = JObj [(''command'', JStr ''update''), (''shotCount'', JStr ''12'')]
    in \<exists>w'. onMessage message w = Inr w'
            \<and> histogramData w' = histogramData w \<and> shotCount w' = shotCount w
            \<and> showEstimates w' = showEstimates w \<and> rendered w' = rendered w)"
  using onMessage_rejects [of "JObj [(''command'', JStr ''update''), (''shotCount'', JStr ''12'')]"
      "initialWebview\<lparr>showEstimates := True\<rparr>"]
  by (simp add: Let_def)

text \<open>
  C9. An \<open>estimate\<close> message is processed without an exception and leaves \<open>showEstimates\<close>
  true, and it is still true after any further messages, whatever they are: no path of
  the handler sets it back.
\<close>

theorem showEstimates_stays:
  assumes "getProp message ''command'' = JStr ''estimate''"
  shows "\<exists>w'. onMessage message w = Inr w' \<and> showEstimates w'
            \<and> (\<forall>later. showEstimates (deliverAll later w'))"
proof -
  have "onMessage message w = Inr (renderApp (w\<lparr>showEstimates := True\<rparr>))"
    using assms by (simp add: onMessage_def)
  moreover have "showEstimates (renderApp (w\<lparr>showEstimates := True\<rparr>))"
    by (simp add: renderApp_def)
  ultimately show ?thesis
    using deliverAll_keeps_estimates by blast
qed

theorem showEstimates_stays_witness:
  "\<exists>w'. onMessage (JObj [(''command'', JStr ''estimate'')]) initialWebview = Inr w'
       \<and> showEstimates w'
       \<and> showEstimates (deliverAll
            [JObj [(''command'', JStr ''update''), (''buckets'', JArr [JArr [JStr ''0'', JNum 3]]),
                   (''shotCount'', JNum 3)],
             JNull, JObj [(''command'', JStr ''stop'')]] w')"
  using showEstimates_stays [of "JObj [(''command'', JStr ''estimate'')]" initialWebview]
  by auto

section \<open>Properties of the animation queue\<close>

subsection \<open>What a frame does to the queue\<close>

lemma drawKeyframe_queue_fields:
  "gateQueue (drawKeyframe a b) = gateQueue b"
  "currentGate (drawKeyframe a b) = currentGate b"
  "startTime (drawKeyframe a b) = startTime b"
  "animationCallbackId (drawKeyframe a b) = animationCallbackId b"
  "frameHandle (drawKeyframe a b) = frameHandle b"
  by (simp_all add: drawKeyframe_def Let_def)

lemma drawPath_queue_fields:
  "gateQueue (drawPath path b) = gateQueue b"
  "currentGate (drawPath path b) = currentGate b"
  "startTime (drawPath path b) = startTime b"
  "animationCallbackId (drawPath path b) = animationCallbackId b"
  "frameHandle (drawPath path b) = frameHandle b"
  by (induction path arbitrary: b) (simp_all add: drawKeyframe_queue_fields)

lemma popGate_None: "popGate tpop b = None \<longleftrightarrow> inFlight b = []"
  by (simp add: popGate_def inFlight_def split: option.splits list.splits)

lemma popGate_Some:
  assumes "popGate tpop b = Some (gate, b1)"
  shows "inFlight b = gate # gateQueue b1" "currentGate b1 = Some gate"
  using assms by (auto simp: popGate_def inFlight_def split: option.splits list.splits)

lemma processQueue_empty:
  "popGate tpop b = None \<Longrightarrow> processQueue R tpop tnow b = b\<lparr>animationCallbackId := 0\<rparr>"
  by (simp add: processQueue_def)

lemma processQueue_after_pop:
  assumes "popGate tpop b = Some (gate, b1)"
  shows "gateQueue (processQueue R tpop tnow b) = gateQueue b1"
    and "currentGate (processQueue R tpop tnow b) =
           (if easedProgress (elapsedFraction tnow (startTime b1)) \<ge> 1 then None else Some gate)"
    and "startTime (processQueue R tpop tnow b) = startTime b1"
    and "animationCallbackId (processQueue R tpop tnow b) = Suc (frameHandle b1)"
    and "frameHandle (processQueue R tpop tnow b) = Suc (frameHandle b1)"
  using assms popGate_Some(2) [OF assms]
  by (simp_all add: processQueue_def Let_def split_beta requestAnimationFrame_def render_def
      drawPath_queue_fields)

text \<open>
  The gate and the progress a frame is said to show are the ones it hands to the engine:
  the qubit is turned to the orientation the engine returns for them.
\<close>

lemma processQueue_qubit:
  assumes "popGate tpop b = Some (gate, b1)"
  shows "qubit (processQueue R tpop tnow b) =
           fst (fst (getRotationAtPercent R gate
                  (easedProgress (elapsedFraction tnow (startTime b1)))
                  (rotations b1, keyframes b1)))"
  using assms
  by (simp add: processQueue_def Let_def split_beta requestAnimationFrame_def render_def)

text \<open>
  A frame draws the path the engine returns and then fades the whole trail, the markers
  just added included.
\<close>

lemma processQueue_draws:
  assumes "popGate tpop b = Some (gate, b1)"
    and "getRotationAtPercent R gate (easedProgress (elapsedFraction tnow (startTime b1)))
           (rotations b1, keyframes b1) = ((p, path), (r, kf))"
  shows "keyframes (processQueue R tpop tnow b)
           = keyframes (drawPath path (b1\<lparr>rotations := r, keyframes := kf\<rparr>))"
    and "trail (processQueue R tpop tnow b)
           = fadeTrail (trail (drawPath path (b1\<lparr>rotations := r, keyframes := kf\<rparr>)))"
  using assms
  by (simp_all add: processQueue_def Let_def requestAnimationFrame_def render_def)

lemma processQueue_fields:
  "gateQueue (processQueue R tpop tnow b) =
     (case currentGate b of Some g \<Rightarrow> gateQueue b | None \<Rightarrow> tl (gateQueue b))
   \<and> currentGate (processQueue R tpop tnow b) =
     (case currentGate b of
        Some g \<Rightarrow> if easedProgress (elapsedFraction tnow (startTime b)) \<ge> 1 then None else Some g
      | None \<Rightarrow>
          (case gateQueue b of
             [] \<Rightarrow> None
           | g # rest \<Rightarrow> if easedProgress (elapsedFraction tnow tpop) \<ge> 1 then None else Some g))
   \<and> startTime (processQueue R tpop tnow b) =
     (case currentGate b of
        Some g \<Rightarrow> startTime b
      | None \<Rightarrow> (case gateQueue b of [] \<Rightarrow> startTime b | g # rest \<Rightarrow> tpop))
   \<and> animationCallbackId (processQueue R tpop tnow b) =
     (if inFlight b = [] then 0 else Suc (frameHandle b))
   \<and> frameHandle (processQueue R tpop tnow b) =
     (if inFlight b = [] then frameHandle b else Suc (frameHandle b))"
proof (cases "currentGate b")
  case None
  show ?thesis
  proof (cases "gateQueue b")
    case Nil
    with None have "popGate tpop b = None" by (simp add: popGate_def)
    then show ?thesis
      using None Nil by (simp add: processQueue_empty inFlight_def)
  next
    case (Cons g rest)
    with None have "popGate tpop b
        = Some (g, b\<lparr>gateQueue := rest, currentGate := Some g, startTime := tpop\<rparr>)"
      by (simp add: popGate_def)
    from processQueue_after_pop [OF this, of R tnow] show ?thesis
      using None Cons by (simp add: inFlight_def)
  qed
next
  case (Some g)
  then have "popGate tpop b = Some (g, b)" by (simp add: popGate_def)
  from processQueue_after_pop [OF this, of R tnow] show ?thesis
    using Some by (simp add: inFlight_def)
qed

lemma frameShown_eval:
  "frameShown tpop tnow b =
     (case currentGate b of
        Some g \<Rightarrow> [(g, easedProgress (elapsedFraction tnow (startTime b)))]
      | None \<Rightarrow>
          (case gateQueue b of
             [] \<Rightarrow> []
           | g # rest \<Rightarrow> [(g, easedProgress (elapsedFraction tnow tpop))]))"
  by (simp add: frameShown_def popGate_def split: option.splits list.splits)

lemma queueGate_fields:
  "gateQueue (queueGate R gate tpop tnow b) =
     (if animationCallbackId b \<noteq> 0 then gateQueue b @ [gate] else tl (gateQueue b @ [gate]))"
  "currentGate (queueGate R gate tpop tnow b) =
     (if animationCallbackId b \<noteq> 0 then currentGate b
      else if easedProgress (elapsedFraction tnow tpop) \<ge> 1 then None
      else Some (hd (gateQueue b @ [gate])))"
  "animationCallbackId (queueGate R gate tpop tnow b) =
     (if animationCallbackId b \<noteq> 0 then animationCallbackId b else Suc (frameHandle b))"
  "startTime (queueGate R gate tpop tnow b) =
     (if animationCallbackId b \<noteq> 0 then startTime b else tpop)"
  by (simp_all add: queueGate_def Let_def processQueue_fields inFlight_def split: list.splits)

lemma rendererReset_fields:
  "gateQueue (rendererReset R b) = gateQueue b"
  "currentGate (rendererReset R b) = currentGate b"
  "startTime (rendererReset R b) = startTime b"
  "animationCallbackId (rendererReset R b) = animationCallbackId b"
  "trail (rendererReset R b) = []"
  "qubit (rendererReset R b) = identityQuaternion"
  by (simp_all add: rendererReset_def split_beta render_def)

lemma newBlochRenderer_fields:
  "gateQueue (newBlochRenderer R) = []"
  "currentGate (newBlochRenderer R) = None"
  "animationCallbackId (newBlochRenderer R) = 0"
  "frameHandle (newBlochRenderer R) = 0"
  "trail (newBlochRenderer R) = []"
  by (simp_all add: newBlochRenderer_def split_beta)

lemma eased_values:
  "easedProgress (elapsedFraction t t) = 0"
  "t + 750 \<le> t' \<Longrightarrow> easedProgress (elapsedFraction t' t) = 1"
  by (simp_all add: easedProgress_def elapsedFraction_def easeInOutSine_def rotationTimeMs_def)

lemma sample_simps:
  "newRotations sampleRotations = (\<lambda>n. ((), (\<lambda>a. \<lparr>pos = identityQuaternion, ref = None\<rparr>)))"
  "rotationsRotateX sampleRotations = (\<lambda>angle w. ((''x'', angle), w))"
  "rotationsRotateY sampleRotations = (\<lambda>angle w. ((''y'', angle), w))"
  "rotationsRotateZ sampleRotations = (\<lambda>angle w. ((''z'', angle), w))"
  "rotationsRotateH sampleRotations = (\<lambda>angle w. ((''h'', angle), w))"
  "getRotationAtPercent sampleRotations = (\<lambda>gate t w. ((identityQuaternion, [0, 1, 0]), w))"
  "rotationsReset sampleRotations = (\<lambda>w. w)"
  by (simp_all add: sampleRotations_def)

subsection \<open>Queueing while a callback is scheduled\<close>

text \<open>
  C10. A call of \<open>queueGate\<close> made while a callback is scheduled (\<open>animationCallbackId\<close>
  is not 0) appends the gate to the end of \<open>gateQueue\<close> and does nothing else: the
  qubit's orientation, the trail, the active gate, its start time, the scheduled callback
  and every other field are as before.
\<close>

theorem queueGate_while_scheduled:
  assumes "animationCallbackId b \<noteq> 0"
  shows "queueGate R gate tpop tnow b = b\<lparr>gateQueue := gateQueue b @ [gate]\<rparr>"
  using assms by (simp add: queueGate_def)

theorem queueGate_while_scheduled_witness:
  "(let b = queueGate sampleRotations (''x'', pi) 0 0 (newBlochRenderer sampleRotations)
    in animationCallbackId b \<noteq> 0
       \<and> queueGate sampleRotations (''y'', pi) 10 10 b = b\<lparr>gateQueue := gateQueue b @ [(''y'', pi)]\<rparr>
       \<and> gateQueue b = [] \<and> currentGate b = Some (''x'', pi))"
proof -
  let ?b = "queueGate sampleRotations (''x'', pi) 0 0 (newBlochRenderer sampleRotations)"
  have f: "animationCallbackId ?b \<noteq> 0" "gateQueue ?b = []" "currentGate ?b = Some (''x'', pi)"
    by (simp_all add: queueGate_def processQueue_fields newBlochRenderer_fields inFlight_def
        eased_values)
  from queueGate_while_scheduled [OF f(1)] f show ?thesis
    by (simp add: Let_def)
qed

subsection \<open>First in, first out\<close>

text \<open>
  One step of a run. Either no frame is shown and the gates in flight are the old ones
  followed by the gate just queued, if any; or one frame is shown, for the gate at the
  head, and the head leaves exactly when that frame completes it.
\<close>

lemma processQueue_step:
  "(frameShown tpop tnow b = [] \<and> inFlight (processQueue R tpop tnow b) = inFlight b
      \<and> inFlight b = [] \<and> animationCallbackId (processQueue R tpop tnow b) = 0)
   \<or> (\<exists>e. frameShown tpop tnow b = [e] \<and> inFlight b \<noteq> [] \<and> fst e = hd (inFlight b)
         \<and> inFlight (processQueue R tpop tnow b)
             = (if completes e then tl (inFlight b) else inFlight b)
         \<and> animationCallbackId (processQueue R tpop tnow b) \<noteq> 0)"
proof (cases "popGate tpop b")
  case None
  then show ?thesis
    using popGate_None [of tpop b]
    by (simp add: frameShown_def processQueue_empty inFlight_def)
next
  case (Some p)
  obtain gate b1 where p: "p = (gate, b1)" by (cases p)
  have pop: "popGate tpop b = Some (gate, b1)" using Some p by simp
  let ?e = "(gate, easedProgress (elapsedFraction tnow (startTime b1)))"
  have "frameShown tpop tnow b = [?e]" using pop by (simp add: frameShown_def)
  moreover have "inFlight b \<noteq> []" "fst ?e = hd (inFlight b)"
    using popGate_Some(1) [OF pop] by simp_all
  moreover have "inFlight (processQueue R tpop tnow b)
             = (if completes ?e then tl (inFlight b) else inFlight b)"
    using popGate_Some(1) [OF pop] processQueue_after_pop(1,2) [OF pop, of R tnow]
    by (simp add: inFlight_def completes_def)
  moreover have "animationCallbackId (processQueue R tpop tnow b) \<noteq> 0"
    using processQueue_after_pop(4) [OF pop, of R tnow] by simp
  ultimately show ?thesis by blast
qed

lemma submitted_Cons: "submitted (a # as) = submitted [a] @ submitted as"
  by (cases a) simp_all

lemma closureFree_processQueue:
  "closureFree b \<Longrightarrow> closureFree (processQueue R tpop tnow b)"
  using processQueue_step [of tpop tnow b R]
  by (auto simp: closureFree_def inFlight_def split: option.splits)

lemma perform_step:
  assumes "closureFree b"
  shows "closureFree (perform R a b)
       \<and> ((shown a b = [] \<and> inFlight (perform R a b) = inFlight b @ submitted [a])
          \<or> (\<exists>e. shown a b = [e] \<and> inFlight b @ submitted [a] \<noteq> []
                \<and> fst e = hd (inFlight b @ submitted [a])
                \<and> inFlight (perform R a b)
                    = (if completes e then tl (inFlight b @ submitted [a])
                       else inFlight b @ submitted [a])))"
proof (cases a)
  case (QueueGate gate tpop tnow)
  show ?thesis
  proof (cases "animationCallbackId b = 0")
    case True
    let ?b1 = "b\<lparr>gateQueue := gateQueue b @ [gate], currentGate := None, startTime := 0\<rparr>"
    have none: "currentGate b = None" using assms True by (simp add: closureFree_def)
    have perf: "perform R a b = processQueue R tpop tnow ?b1"
      using True QueueGate by (simp add: queueGate_def)
    have sh: "shown a b = frameShown tpop tnow ?b1"
      using True QueueGate by simp
    have fl: "inFlight ?b1 = inFlight b @ submitted [a]"
      using none QueueGate by (simp add: inFlight_def)
    have "closureFree ?b1" by (simp add: closureFree_def)
    then have "closureFree (perform R a b)"
      unfolding perf by (rule closureFree_processQueue)
    then show ?thesis
      using processQueue_step [of tpop tnow ?b1 R] unfolding perf sh fl by auto
  next
    case False
    then show ?thesis
      using QueueGate assms by (simp add: queueGate_def inFlight_def closureFree_def)
  qed
next
  case (AnimationFrame tpop tnow)
  show ?thesis
  proof (cases "animationCallbackId b = 0")
    case True
    then show ?thesis using AnimationFrame assms by (simp add: animationFrame_def)
  next
    case False
    have perf: "perform R a b = processQueue R tpop tnow b"
      using False AnimationFrame by (simp add: animationFrame_def)
    have sh: "shown a b = frameShown tpop tnow b"
      using False AnimationFrame by simp
    have fl: "inFlight b @ submitted [a] = inFlight b"
      using AnimationFrame by simp
    have "closureFree (perform R a b)"
      unfolding perf using assms by (rule closureFree_processQueue)
    then show ?thesis
      using processQueue_step [of tpop tnow b R] unfolding perf sh fl by auto
  qed
qed

lemma run_conserves:
  assumes "closureFree b"
  shows "map fst (filter completes (trace R as b)) @ inFlight (run R as b)
           = inFlight b @ submitted as"
  using assms
proof (induction as arbitrary: b)
  case Nil
  then show ?case by simp
next
  case (Cons a as)
  let ?b' = "perform R a b"
  let ?Q = "inFlight b @ submitted [a]"
  from perform_step [OF Cons.prems, of R a]
  have free: "closureFree ?b'"
    and step: "(shown a b = [] \<and> inFlight ?b' = ?Q)
          \<or> (\<exists>e. shown a b = [e] \<and> ?Q \<noteq> [] \<and> fst e = hd ?Q
                \<and> inFlight ?b' = (if completes e then tl ?Q else ?Q))"
    by blast+
  have IH: "map fst (filter completes (trace R as ?b')) @ inFlight (run R as ?b')
           = inFlight ?b' @ submitted as"
    by (rule Cons.IH [OF free])
  have sub: "inFlight b @ submitted (a # as) = ?Q @ submitted as"
    using submitted_Cons [of a as] by simp
  from step show ?case
  proof
    assume "shown a b = [] \<and> inFlight ?b' = ?Q"
    then show ?thesis using IH unfolding sub by simp
  next
    assume "\<exists>e. shown a b = [e] \<and> ?Q \<noteq> [] \<and> fst e = hd ?Q
                \<and> inFlight ?b' = (if completes e then tl ?Q else ?Q)"
    then obtain e where e: "shown a b = [e]" "?Q \<noteq> []" "fst e = hd ?Q"
      "inFlight ?b' = (if completes e then tl ?Q else ?Q)" by blast
    have Q: "?Q = fst e # tl ?Q" using e(2,3) by simp
    show ?thesis
    proof (cases "completes e")
      case True
      then have "map fst (filter completes (trace R (a # as) b)) @ inFlight (run R (a # as) b)
                   = fst e # (tl ?Q @ submitted as)"
        using e(1,4) IH by simp
      also have "\<dots> = ?Q @ submitted as" using Q by (metis append_Cons)
      finally show ?thesis unfolding sub .
    next
      case False
      then show ?thesis using e(1,4) IH unfolding sub by simp
    qed
  qed
qed

lemma run_order:
  assumes "closureFree b" "i < length (trace R as b)"
  shows "fst (trace R as b ! i)
           = (inFlight b @ submitted as) ! length (filter completes (take i (trace R as b)))"
  using assms
proof (induction as arbitrary: b i)
  case Nil
  then show ?case by simp
next
  case (Cons a as)
  let ?b' = "perform R a b"
  let ?Q = "inFlight b @ submitted [a]"
  from perform_step [OF Cons.prems(1), of R a]
  have free: "closureFree ?b'"
    and step: "(shown a b = [] \<and> inFlight ?b' = ?Q)
          \<or> (\<exists>e. shown a b = [e] \<and> ?Q \<noteq> [] \<and> fst e = hd ?Q
                \<and> inFlight ?b' = (if completes e then tl ?Q else ?Q))"
    by blast+
  have sub: "inFlight b @ submitted (a # as) = ?Q @ submitted as"
    using submitted_Cons [of a as] by simp
  from step show ?case
  proof
    assume s: "shown a b = [] \<and> inFlight ?b' = ?Q"
    then have "i < length (trace R as ?b')" using Cons.prems(2) by simp
    from Cons.IH [OF free this] s show ?thesis unfolding sub by simp
  next
    assume "\<exists>e. shown a b = [e] \<and> ?Q \<noteq> [] \<and> fst e = hd ?Q
                \<and> inFlight ?b' = (if completes e then tl ?Q else ?Q)"
    then obtain e where e: "shown a b = [e]" "?Q \<noteq> []" "fst e = hd ?Q"
      "inFlight ?b' = (if completes e then tl ?Q else ?Q)" by blast
    have Q: "?Q @ submitted as = fst e # (tl ?Q @ submitted as)"
      using e(2,3) by (cases ?Q) simp_all
    show ?thesis
    proof (cases i)
      case 0
      have "(?Q @ submitted as) ! 0 = hd ?Q"
        using e(2) by (cases ?Q) simp_all
      with 0 e(1,3) show ?thesis unfolding sub by simp
    next
      case (Suc j)
      then have j: "j < length (trace R as ?b')" using Cons.prems(2) e(1) by simp
      have IH: "fst (trace R as ?b' ! j)
           = (inFlight ?b' @ submitted as) ! length (filter completes (take j (trace R as ?b')))"
        by (rule Cons.IH [OF free j])
      show ?thesis
      proof (cases "completes e")
        case True
        then have "inFlight ?b' = tl ?Q" using e(4) by simp
        with IH True Suc e(1) show ?thesis unfolding sub Q by simp
      next
        case False
        then have "inFlight ?b' = ?Q" using e(4) by simp
        with IH False Suc e(1) show ?thesis unfolding sub by simp
      qed
    qed
  qed
qed

text \<open>
  What a step is said to show is what it animates: the qubit is left at the orientation
  the engine returns for that gate at that progress.
\<close>

lemma frameShown_animated:
  fixes R :: "('g, 'r) Rotations"
  assumes "frameShown tpop tnow b = [e]"
  shows "\<exists>b1 :: ('g, 'r) BlochRenderer. qubit (processQueue R tpop tnow b)
              = fst (fst (getRotationAtPercent R (fst e) (snd e) (rotations b1, keyframes b1)))"
proof (cases "popGate tpop b")
  case None
  with assms show ?thesis by (simp add: frameShown_def)
next
  case (Some p)
  obtain gate b1 where pop: "popGate tpop b = Some (gate, b1)"
    using Some by (cases p) simp
  with assms have "e = (gate, easedProgress (elapsedFraction tnow (startTime b1)))"
    by (simp add: frameShown_def)
  with processQueue_qubit [OF pop, of R tnow]
  have "qubit (processQueue R tpop tnow b)
          = fst (fst (getRotationAtPercent R (fst e) (snd e) (rotations b1, keyframes b1)))"
    by simp
  then show ?thesis by (rule exI [where x = b1])
qed

lemma shown_animated:
  fixes R :: "('g, 'r) Rotations"
  assumes "shown a b = [e]"
  shows "\<exists>b1 :: ('g, 'r) BlochRenderer. qubit (perform R a b)
              = fst (fst (getRotationAtPercent R (fst e) (snd e) (rotations b1, keyframes b1)))"
proof (cases a)
  case (QueueGate gate tpop tnow)
  with assms have idle: "animationCallbackId b = 0"
    by (simp split: if_splits)
  with assms QueueGate show ?thesis
    using frameShown_animated
      [of tpop tnow "b\<lparr>gateQueue := gateQueue b @ [gate], currentGate := None, startTime := 0\<rparr>" e R]
    by (simp add: queueGate_def)
next
  case (AnimationFrame tpop tnow)
  with assms have "animationCallbackId b \<noteq> 0"
    by (simp split: if_splits)
  with assms AnimationFrame show ?thesis
    using frameShown_animated [of tpop tnow b e R] by (simp add: animationFrame_def)
qed

lemma easedProgress_le_1: "easedProgress x \<le> 1"
proof -
  have "- 1 \<le> cos (pi * x)" by simp
  then have "easeInOutSine x \<le> 1" by (simp add: easeInOutSine_def)
  then show ?thesis by (simp add: easedProgress_def)
qed

lemma frameShown_le_1: "e \<in> set (frameShown tpop tnow b) \<Longrightarrow> snd e \<le> 1"
  by (auto simp: frameShown_eval easedProgress_le_1 split: option.splits list.splits)

lemma shown_le_1: "e \<in> set (shown a b) \<Longrightarrow> snd e \<le> 1"
  by (cases a) (auto dest: frameShown_le_1 split: if_splits)

lemma trace_le_1: "e \<in> set (trace R as b) \<Longrightarrow> snd e \<le> 1"
  by (induction as arbitrary: b) (auto dest: shown_le_1)

text \<open>
  C3. Take any run of the queue, gates queued and frames run in any interleaving and with
  any clock readings, from a state with no stale closure (such as a new renderer). The
  gates whose animation has completed, in the order of completion, followed by the gates
  still in flight, are the gates that were in flight at the start followed by the gates
  queued, in the order of queueing: nothing is reordered and nothing is dropped. And the
  gate shown by every frame is the first gate of that sequence whose completing frame
  (progress \<open>t \<ge> 1\<close>, which the code tests at line 457) has not been shown yet: the
  single active slot holds one gate at a time, and the next gate is not shown before its
  predecessor has reached the end. The progress never exceeds 1, so the completing frame
  of a gate is the one that shows it at \<open>t = 1\<close>.
\<close>

theorem gates_fifo:
  assumes "closureFree b"
  shows "map fst (filter completes (trace R as b)) @ inFlight (run R as b)
           = inFlight b @ submitted as
       \<and> (\<forall>i < length (trace R as b).
            fst (trace R as b ! i)
              = (inFlight b @ submitted as) ! length (filter completes (take i (trace R as b))))
       \<and> (\<forall>e \<in> set (trace R as b). completes e \<longleftrightarrow> snd e = 1)"
proof -
  have "\<forall>e \<in> set (trace R as b). completes e \<longleftrightarrow> snd e = 1"
    using trace_le_1 [of _ R as b] by (fastforce simp: completes_def)
  then show ?thesis
    using run_conserves [OF assms] run_order [OF assms] by simp
qed

theorem gates_fifo_witness:
  "closureFree (newBlochRenderer sampleRotations)
   \<and> trace sampleRotations
        [QueueGate (''x'', pi) 0 0, QueueGate (''y'', pi) 10 10, QueueGate (''z'', pi) 20 20,
         AnimationFrame 750 750, AnimationFrame 760 760, AnimationFrame 1510 1510,
         AnimationFrame 1520 2300, AnimationFrame 2310 2310]
        (newBlochRenderer sampleRotations)
       = [((''x'', pi), 0), ((''x'', pi), 1), ((''y'', pi), 0), ((''y'', pi), 1), ((''z'', pi), 1)]
   \<and> inFlight (run sampleRotations
        [QueueGate (''x'', pi) 0 0, QueueGate (''y'', pi) 10 10, QueueGate (''z'', pi) 20 20,
         AnimationFrame 750 750, AnimationFrame 760 760, AnimationFrame 1510 1510,
         AnimationFrame 1520 2300, AnimationFrame 2310 2310]
        (newBlochRenderer sampleRotations)) = []"
proof -
  let ?as = "[QueueGate (''x'', pi) 0 0, QueueGate (''y'', pi) 10 10, QueueGate (''z'', pi) 20 20,
         AnimationFrame 750 750, AnimationFrame 760 760, AnimationFrame 1510 1510,
         AnimationFrame 1520 2300, AnimationFrame 2310 2310]"
  have free: "closureFree (newBlochRenderer sampleRotations)"
    by (simp add: closureFree_def newBlochRenderer_fields)
  have tr: "trace sampleRotations ?as (newBlochRenderer sampleRotations)
       = [((''x'', pi), 0), ((''x'', pi), 1), ((''y'', pi), 0), ((''y'', pi), 1), ((''z'', pi), 1)]"
    by (simp add: queueGate_def animationFrame_def processQueue_fields frameShown_eval
        newBlochRenderer_fields eased_values inFlight_def Let_def)
  have "map fst (filter completes (trace sampleRotations ?as (newBlochRenderer sampleRotations)))
          @ inFlight (run sampleRotations ?as (newBlochRenderer sampleRotations))
        = inFlight (newBlochRenderer sampleRotations) @ submitted ?as"
    using gates_fifo [OF free, of sampleRotations ?as] by blast
  then have "inFlight (run sampleRotations ?as (newBlochRenderer sampleRotations)) = []"
    unfolding tr by (simp add: completes_def inFlight_def newBlochRenderer_fields del: run.simps)
  with free tr show ?thesis by blast
qed

subsection \<open>Easing of the progress\<close>

lemma easeInOutSine_mono:
  assumes "0 \<le> x" "x \<le> y" "y \<le> 1"
  shows "easeInOutSine x \<le> easeInOutSine y"
proof -
  have "0 \<le> pi * x" using assms by simp
  moreover have "pi * x \<le> pi * y" using assms by simp
  moreover have "pi * y \<le> pi" using assms by (simp add: mult_le_cancel_left1)
  ultimately have "cos (pi * y) \<le> cos (pi * x)"
    by (rule cos_monotone_0_pi_le)
  then show ?thesis by (simp add: easeInOutSine_def)
qed

text \<open>
  C5. The progress of a frame is \<open>easeInOutSine x\<close> while \<open>x < 1\<close> and 1 from then on,
  where \<open>x\<close> is the time since the gate's start divided by 750 ms. \<open>easeInOutSine x\<close>
  is \<open>-(cos (pi x) - 1) / 2\<close>; it does not decrease on \<open>[0, 1]\<close>, is 0 at 0 and 1 at 1.
  This is the progress of the frame that animates a gate: it is the value the frame shows
  and the value at which the engine is asked for the qubit's orientation.
\<close>

theorem eased_progress:
  "easedProgress x = (if x < 1 then easeInOutSine x else 1)
   \<and> easeInOutSine x = - (cos (pi * x) - 1) / 2
   \<and> (0 \<le> x \<and> x \<le> y \<and> y \<le> 1 \<longrightarrow> easeInOutSine x \<le> easeInOutSine y)
   \<and> easeInOutSine 0 = 0 \<and> easeInOutSine 1 = 1
   \<and> (popGate tpop b = Some (gate, b1) \<longrightarrow>
        frameShown tpop tnow b = [(gate, easedProgress ((tnow - startTime b1) / 750))]
        \<and> qubit (processQueue R tpop tnow b) =
            fst (fst (getRotationAtPercent R gate (easedProgress ((tnow - startTime b1) / 750))
                   (rotations b1, keyframes b1))))"
proof -
  have "0 \<le> x \<and> x \<le> y \<and> y \<le> 1 \<longrightarrow> easeInOutSine x \<le> easeInOutSine y"
    using easeInOutSine_mono by blast
  moreover have "popGate tpop b = Some (gate, b1) \<longrightarrow>
        frameShown tpop tnow b = [(gate, easedProgress ((tnow - startTime b1) / 750))]
        \<and> qubit (processQueue R tpop tnow b) =
            fst (fst (getRotationAtPercent R gate (easedProgress ((tnow - startTime b1) / 750))
                   (rotations b1, keyframes b1)))"
    using processQueue_qubit [of tpop b gate b1 R tnow]
    by (simp add: frameShown_def elapsedFraction_def rotationTimeMs_def)
  ultimately show ?thesis
    by (simp add: easedProgress_def easeInOutSine_def)
qed

theorem eased_progress_witness:
  "easeInOutSine 0 \<le> easeInOutSine (1 / 2)
   \<and> easedProgress (1 / 2) = 1 / 2
   \<and> frameShown 0 375 ((newBlochRenderer sampleRotations)\<lparr>gateQueue := [(''x'', pi)]\<rparr>)
       = [((''x'', pi), 1 / 2)]
   \<and> qubit (processQueue sampleRotations 0 375
              ((newBlochRenderer sampleRotations)\<lparr>gateQueue := [(''x'', pi)]\<rparr>))
       = identityQuaternion"
proof -
  let ?b = "(newBlochRenderer sampleRotations)\<lparr>gateQueue := [(''x'', pi)]\<rparr>"
  let ?b1 = "?b\<lparr>gateQueue := [], currentGate := Some (''x'', pi), startTime := 0\<rparr>"
  have pop: "popGate 0 ?b = Some ((''x'', pi), ?b1)"
    by (simp add: popGate_def newBlochRenderer_fields)
  have half: "easedProgress (1 / 2) = 1 / 2"
    by (simp add: easedProgress_def easeInOutSine_def)
  have frac: "(375 - startTime ?b1) / 750 = 1 / 2" by simp
  from eased_progress [of 0 "1 / 2" 0 ?b "(''x'', pi)" ?b1 375 sampleRotations]
  show ?thesis
    unfolding frac using pop half by (simp add: sample_simps)
qed

subsection \<open>Fading of the trail\<close>

lemma easeOutSine_mono:
  assumes "0 \<le> x" "x \<le> y" "y \<le> 1"
  shows "easeOutSine x \<le> easeOutSine y"
proof -
  have "0 \<le> x * pi / 2" using assms by simp
  then have "- (pi / 2) \<le> x * pi / 2" using pi_ge_zero by linarith
  moreover have "x * pi / 2 \<le> y * pi / 2" using assms by (simp add: mult_right_mono)
  moreover have "y * pi / 2 \<le> pi / 2" using assms by (simp add: mult_le_cancel_right1)
  ultimately show ?thesis
    unfolding easeOutSine_def by (rule sin_monotone_2pi_le)
qed

lemma fadeWeight_mono:
  assumes "i \<le> j" "j < n"
  shows "fadeWeight i n \<le> fadeWeight j n"
  unfolding fadeWeight_def
proof (rule easeOutSine_mono)
  show "0 \<le> (real i + 1) / real n" by simp
  show "(real i + 1) / real n \<le> (real j + 1) / real n"
    using assms by (simp add: divide_right_mono)
  show "(real j + 1) / real n \<le> 1" using assms by simp
qed

lemma fadeWeight_last: "0 < n \<Longrightarrow> fadeWeight (n - 1) n = 1"
  by (simp add: fadeWeight_def easeOutSine_def of_nat_diff)

lemma fadeTrail_nth:
  assumes "idx < length arr"
  shows "fadeTrail arr ! idx =
           (arr ! idx)\<lparr>color := HslToRgb 0.6 (fadeWeight idx (length arr)) 0.5,
                        scale := fadeWeight idx (length arr) + 0.5\<rparr>"
  using assms by (simp add: fadeTrail_def nth_enumerate_eq Let_def)

lemma fadeTrail_weights:
  assumes "idx < length arr"
  shows "length (fadeTrail arr) = length arr
       \<and> scale (fadeTrail arr ! idx) = fadeWeight idx (length arr) + 0.5
       \<and> color (fadeTrail arr ! idx) = HslToRgb 0.6 (fadeWeight idx (length arr)) 0.5
       \<and> fadeWeight idx (length arr) = easeOutSine ((real idx + 1) / real (length arr))
       \<and> (\<forall>j. idx \<le> j \<and> j < length arr \<longrightarrow>
              fadeWeight idx (length arr) \<le> fadeWeight j (length arr))
       \<and> fadeWeight (length arr - 1) (length arr) = 1
       \<and> easeOutSine 1 = 1"
proof -
  have pos: "0 < length arr" using assms by (cases arr) simp_all
  have "length (fadeTrail arr) = length arr" by (simp add: fadeTrail_def)
  moreover have "scale (fadeTrail arr ! idx) = fadeWeight idx (length arr) + 0.5"
    and "color (fadeTrail arr ! idx) = HslToRgb 0.6 (fadeWeight idx (length arr)) 0.5"
    by (simp_all add: fadeTrail_nth [OF assms])
  moreover have "easeOutSine 1 = 1" by (simp add: easeOutSine_def)
  ultimately show ?thesis
    using fadeWeight_mono [of idx _ "length arr"] fadeWeight_last [OF pos]
    by (simp add: fadeWeight_def)
qed

text \<open>
  C6. Take a frame that animates a gate (a frame that finds the queue empty returns before
  it reaches the trail). In the trail it leaves, of \<open>n\<close> entries, the entry at \<open>idx\<close> has
  been given the weight \<open>easeOutSine ((idx + 1) / n)\<close>: that weight is the saturation
  passed to \<open>hslToRgb\<close> for its colour and, plus 0.5, its scale. The weight does not
  decrease with \<open>idx\<close>, and the last entry gets \<open>easeOutSine 1 = 1\<close>, the largest value.
\<close>

theorem frame_fades_trail:
  assumes "popGate tpop b = Some (gate, b1)"
    and "idx < length (trail (processQueue R tpop tnow b))"
  shows "(let arr = trail (processQueue R tpop tnow b); n = length arr
          in scale (arr ! idx) = fadeWeight idx n + 0.5
           \<and> color (arr ! idx) = HslToRgb 0.6 (fadeWeight idx n) 0.5
           \<and> fadeWeight idx n = easeOutSine ((real idx + 1) / real n)
           \<and> (\<forall>j. idx \<le> j \<and> j < n \<longrightarrow> fadeWeight idx n \<le> fadeWeight j n)
           \<and> fadeWeight (n - 1) n = 1
           \<and> easeOutSine 1 = 1)"
proof -
  obtain p path r kf where eng:
    "getRotationAtPercent R gate (easedProgress (elapsedFraction tnow (startTime b1)))
       (rotations b1, keyframes b1) = ((p, path), (r, kf))"
    by (cases "getRotationAtPercent R gate (easedProgress (elapsedFraction tnow (startTime b1)))
                 (rotations b1, keyframes b1)") auto
  let ?drawn = "trail (drawPath path (b1\<lparr>rotations := r, keyframes := kf\<rparr>))"
  have tr: "trail (processQueue R tpop tnow b) = fadeTrail ?drawn"
    by (rule processQueue_draws(2) [OF assms(1) eng])
  have len: "length (fadeTrail ?drawn) = length ?drawn"
    by (simp add: fadeTrail_def)
  have idx: "idx < length ?drawn"
    using assms(2) unfolding tr len .
  show ?thesis
    unfolding tr Let_def len by (rule fadeTrail_weights [OF idx, THEN conjunct2])
qed

theorem frame_fades_trail_witness:
  "(let arr = trail (processQueue sampleRotations 0 0
                ((newBlochRenderer sampleRotations)\<lparr>gateQueue := [(''x'', pi)]\<rparr>))
    in length arr = 2
     \<and> scale (arr ! 0) = fadeWeight 0 2 + 0.5
     \<and> fadeWeight 0 2 \<le> fadeWeight 1 2
     \<and> fadeWeight 1 2 = 1
     \<and> scale (arr ! 1) = 3 / 2)"
proof -
  let ?b = "(newBlochRenderer sampleRotations)\<lparr>gateQueue := [(''x'', pi)]\<rparr>"
  let ?b1 = "?b\<lparr>gateQueue := [], currentGate := Some (''x'', pi), startTime := 0\<rparr>"
  let ?arr = "trail (processQueue sampleRotations 0 0 ?b)"
  have pop: "popGate 0 ?b = Some ((''x'', pi), ?b1)"
    by (simp add: popGate_def newBlochRenderer_fields)
  have eng: "getRotationAtPercent sampleRotations (''x'', pi)
               (easedProgress (elapsedFraction 0 (startTime ?b1))) (rotations ?b1, keyframes ?b1)
             = ((identityQuaternion, [0, 1, 0]), (rotations ?b1, keyframes ?b1))"
    by (simp add: sample_simps)
  have len: "length ?arr = 2"
    unfolding processQueue_draws(2) [OF pop eng]
    by (simp add: fadeTrail_def drawKeyframe_def Let_def newBlochRenderer_def sample_simps)
  have i0: "0 < length ?arr" and i1: "1 < length ?arr"
    unfolding len by simp_all
  note t0 = frame_fades_trail [OF pop i0, unfolded Let_def len]
  note t1 = frame_fades_trail [OF pop i1, unfolded Let_def len]
  from t0 have s0: "scale (?arr ! 0) = fadeWeight 0 2 + 0.5" by blast
  have mono: "fadeWeight 0 2 \<le> fadeWeight 1 2"
  proof -
    from t0 have "\<forall>j. 0 \<le> j \<and> j < 2 \<longrightarrow> fadeWeight 0 2 \<le> fadeWeight j 2" by blast
    from this [rule_format, of 1] show ?thesis by simp
  qed
  have last: "fadeWeight 1 2 = 1"
  proof -
    from t0 have "fadeWeight (2 - 1) 2 = 1" by blast
    then show ?thesis by simp
  qed
  from t1 have "scale (?arr ! 1) = fadeWeight 1 2 + 0.5" by blast
  with last have s1: "scale (?arr ! 1) = 3 / 2" by simp
  from len s0 mono last s1 show ?thesis
    unfolding Let_def by blast
qed

subsection \<open>Growth of the trail\<close>

lemma drawKeyframe_set: "ref (keyframes b a) \<noteq> None \<Longrightarrow> drawKeyframe a b = b"
  by (simp add: drawKeyframe_def)

lemma drawKeyframe_unset:
  "ref (keyframes b a) = None \<Longrightarrow>
   drawKeyframe a b =
     b\<lparr>meshCount := Suc (meshCount b),
       trail := trail b @ [\<lparr>meshId = meshCount b,
                            position = AppliedQuaternion (Vector3 0 5 0) (pos (keyframes b a)),
                            color = HexColor 0x808080, scale = 1\<rparr>],
       keyframes := (keyframes b)(a := (keyframes b a)\<lparr>ref := Some (meshCount b)\<rparr>)\<rparr>"
  by (simp add: drawKeyframe_def Let_def)

lemma drawKeyframe_other:
  "a' \<noteq> a \<Longrightarrow> keyframes (drawKeyframe a b) a' = keyframes b a'"
  by (simp add: drawKeyframe_def Let_def)

lemma drawKeyframe_pos: "pos (keyframes (drawKeyframe a b) a') = pos (keyframes b a')"
  by (simp add: drawKeyframe_def Let_def)

lemma drawPath_keeps_set:
  "ref (keyframes b a) \<noteq> None \<Longrightarrow> keyframes (drawPath path b) a = keyframes b a"
proof (induction path arbitrary: b)
  case Nil
  then show ?case by simp
next
  case (Cons x path)
  show ?case
  proof (cases "ref (keyframes b x) = None")
    case True
    with Cons.prems have "a \<noteq> x" by auto
    then have same: "keyframes (drawKeyframe x b) a = keyframes b a"
      by (rule drawKeyframe_other)
    with Cons.prems Cons.IH [of "drawKeyframe x b"] show ?thesis by simp
  next
    case False
    with Cons show ?thesis by (simp add: drawKeyframe_set)
  qed
qed

lemma drawPath_off_path:
  "a \<notin> set path \<Longrightarrow> keyframes (drawPath path b) a = keyframes b a"
  by (induction path arbitrary: b) (simp_all add: drawKeyframe_other)

lemma drawPath_pos: "pos (keyframes (drawPath path b) a) = pos (keyframes b a)"
  by (induction path arbitrary: b) (simp_all add: drawKeyframe_pos)

lemma drawPath_trail:
  "\<exists>new. trail (drawPath path b) = trail b @ new
       \<and> meshCount (drawPath path b) = meshCount b + length new
       \<and> map meshId new = [meshCount b..<meshCount b + length new]"
proof (induction path arbitrary: b)
  case Nil
  then show ?case by simp
next
  case (Cons x path)
  obtain new where new:
    "trail (drawPath path (drawKeyframe x b)) = trail (drawKeyframe x b) @ new"
    "meshCount (drawPath path (drawKeyframe x b)) = meshCount (drawKeyframe x b) + length new"
    "map meshId new = [meshCount (drawKeyframe x b)..<meshCount (drawKeyframe x b) + length new]"
    using Cons.IH [of "drawKeyframe x b"] by blast
  show ?case
  proof (cases "ref (keyframes b x) = None")
    case True
    let ?m = "\<lparr>meshId = meshCount b,
               position = AppliedQuaternion (Vector3 0 5 0) (pos (keyframes b x)),
               color = HexColor 0x808080, scale = 1\<rparr>"
    have "trail (drawPath (x # path) b) = trail b @ (?m # new)"
      using new(1) by (simp add: drawKeyframe_unset [OF True])
    moreover have "meshCount (drawPath (x # path) b) = meshCount b + length (?m # new)"
      using new(2) by (simp add: drawKeyframe_unset [OF True])
    moreover have "map meshId (?m # new) = [meshCount b..<meshCount b + length (?m # new)]"
    proof -
      have "meshCount (drawKeyframe x b) = Suc (meshCount b)"
        by (simp add: drawKeyframe_unset [OF True])
      with new(3) have "map meshId new = [Suc (meshCount b)..<Suc (meshCount b) + length new]"
        by simp
      moreover have "[meshCount b..<meshCount b + Suc (length new)]
                       = meshCount b # [Suc (meshCount b)..<meshCount b + Suc (length new)]"
        by (rule upt_conv_Cons) simp
      ultimately show ?thesis by (simp del: upt_Suc)
    qed
    ultimately show ?thesis by blast
  next
    case False
    then show ?thesis using new by (simp add: drawKeyframe_set)
  qed
qed

lemma drawPath_count:
  "length (trail (drawPath path b)) =
     length (trail b) + card {a \<in> set path. ref (keyframes b a) = None}"
proof (induction path arbitrary: b)
  case Nil
  then show ?case by simp
next
  case (Cons x path)
  show ?case
  proof (cases "ref (keyframes b x) = None")
    case True
    let ?b1 = "drawKeyframe x b"
    have x_set: "ref (keyframes ?b1 x) \<noteq> None"
      by (simp add: drawKeyframe_unset [OF True])
    have others: "ref (keyframes ?b1 a) = None \<longleftrightarrow> a \<noteq> x \<and> ref (keyframes b a) = None"
      for a
      using x_set drawKeyframe_other [of a x b] by (cases "a = x") auto
    have "{a \<in> set (x # path). ref (keyframes b a) = None}
            = insert x {a \<in> set path. ref (keyframes ?b1 a) = None}"
      using True by (auto simp: others)
    moreover have "x \<notin> {a \<in> set path. ref (keyframes ?b1 a) = None}"
      using x_set by simp
    ultimately have "card {a \<in> set (x # path). ref (keyframes b a) = None}
            = Suc (card {a \<in> set path. ref (keyframes ?b1 a) = None})"
      by simp
    moreover have "length (trail ?b1) = Suc (length (trail b))"
      by (simp add: drawKeyframe_unset [OF True])
    ultimately show ?thesis using Cons.IH [of ?b1] by simp
  next
    case False
    then have "{a \<in> set (x # path). ref (keyframes b a) = None}
            = {a \<in> set path. ref (keyframes b a) = None}"
      by auto
    with False Cons.IH [of b] show ?thesis by (simp add: drawKeyframe_set)
  qed
qed

lemma drawPath_records:
  assumes "a \<in> set path" "ref (keyframes b a) = None"
  shows "\<exists>m \<in> set (drop (length (trail b)) (trail (drawPath path b))).
           ref (keyframes (drawPath path b) a) = Some (meshId m)
         \<and> position m = AppliedQuaternion (Vector3 0 5 0) (pos (keyframes b a))"
  using assms
proof (induction path arbitrary: b)
  case Nil
  then show ?case by simp
next
  case (Cons x path)
  let ?b1 = "drawKeyframe x b"
  obtain new where new: "trail (drawPath path ?b1) = trail ?b1 @ new"
    using drawPath_trail [of path ?b1] by blast
  show ?case
  proof (cases "a = x")
    case True
    let ?m = "\<lparr>meshId = meshCount b,
               position = AppliedQuaternion (Vector3 0 5 0) (pos (keyframes b a)),
               color = HexColor 0x808080, scale = 1\<rparr>"
    have b1: "trail ?b1 = trail b @ [?m]" "ref (keyframes ?b1 a) = Some (meshCount b)"
      using True Cons.prems(2) by (simp_all add: drawKeyframe_unset)
    then have "keyframes (drawPath path ?b1) a = keyframes ?b1 a"
      by (simp add: drawPath_keeps_set)
    with b1 new have "?m \<in> set (drop (length (trail b)) (trail (drawPath (x # path) b)))"
      "ref (keyframes (drawPath (x # path) b) a) = Some (meshId ?m)"
      by simp_all
    then show ?thesis by (intro bexI [of _ ?m]) simp_all
  next
    case False
    then have in_path: "a \<in> set path" and same: "keyframes ?b1 a = keyframes b a"
      using Cons.prems(1) by (simp_all add: drawKeyframe_other)
    then obtain m where m: "m \<in> set (drop (length (trail ?b1)) (trail (drawPath path ?b1)))"
      "ref (keyframes (drawPath path ?b1) a) = Some (meshId m)"
      "position m = AppliedQuaternion (Vector3 0 5 0) (pos (keyframes b a))"
      using Cons.IH [of ?b1] Cons.prems(2) by auto
    have "length (trail b) \<le> length (trail ?b1)"
      by (cases "ref (keyframes b x) = None") (simp_all add: drawKeyframe_unset drawKeyframe_set)
    then have "set (drop (length (trail ?b1)) (trail (drawPath path ?b1)))
                 \<subseteq> set (drop (length (trail b)) (trail (drawPath path ?b1)))"
      by (rule set_drop_subset_set_drop)
    with m show ?thesis by auto
  qed
qed

lemma drawPath_new_recorded:
  assumes "m \<in> set (drop (length (trail b)) (trail (drawPath path b)))"
  shows "\<exists>a \<in> set path. ref (keyframes b a) = None
           \<and> ref (keyframes (drawPath path b) a) = Some (meshId m)"
  using assms
proof (induction path arbitrary: b)
  case Nil
  then show ?case by simp
next
  case (Cons x path)
  let ?b1 = "drawKeyframe x b"
  obtain new where new: "trail (drawPath path ?b1) = trail ?b1 @ new"
    using drawPath_trail [of path ?b1] by blast
  show ?case
  proof (cases "ref (keyframes b x) = None")
    case True
    let ?m = "\<lparr>meshId = meshCount b,
               position = AppliedQuaternion (Vector3 0 5 0) (pos (keyframes b x)),
               color = HexColor 0x808080, scale = 1\<rparr>"
    have b1: "trail ?b1 = trail b @ [?m]" "ref (keyframes ?b1 x) = Some (meshCount b)"
      using True by (simp_all add: drawKeyframe_unset)
    with new Cons.prems have "m = ?m \<or> m \<in> set new" by simp
    then show ?thesis
    proof
      assume "m = ?m"
      moreover have "keyframes (drawPath path ?b1) x = keyframes ?b1 x"
        using b1 by (simp add: drawPath_keeps_set)
      ultimately show ?thesis using True b1 by simp
    next
      assume "m \<in> set new"
      then have "m \<in> set (drop (length (trail ?b1)) (trail (drawPath path ?b1)))"
        using new by simp
      then obtain a where a: "a \<in> set path" "ref (keyframes ?b1 a) = None"
        "ref (keyframes (drawPath path ?b1) a) = Some (meshId m)"
        using Cons.IH [of ?b1] by blast
      then have "a \<noteq> x" using b1 by auto
      then have "keyframes ?b1 a = keyframes b a" by (rule drawKeyframe_other)
      with a show ?thesis by auto
    qed
  next
    case False
    then have "?b1 = b" by (simp add: drawKeyframe_set)
    with Cons show ?thesis by auto
  qed
qed

lemma popGate_keeps:
  assumes "popGate tpop b = Some (gate, b1)"
  shows "trail b1 = trail b" "meshCount b1 = meshCount b"
  using assms by (auto simp: popGate_def split: option.splits list.splits)

text \<open>
  C7. Take a frame that animates a gate (a frame that finds the queue empty returns before
  it reaches the path), and let \<open>path\<close> and \<open>kf\<close> be the path the engine returns for it
  and the keyframe store as the engine leaves it. The trail after the frame is the old
  trail followed by new markers, each entry in its place with its identity and position,
  the whole then faded. There are exactly as many new markers as the path has keyframes
  without a reference; they are objects of their own, no two the same and none created
  before. Each keyframe of the path without a reference has afterwards a reference to
  one of the new markers, placed at the keyframe's orientation, and keeps its
  orientation; each new marker is referred to by such a keyframe. A keyframe that had a
  reference, and any keyframe off the path, is unchanged.
\<close>

theorem frame_draws_markers:
  assumes "popGate tpop b = Some (gate, b1)"
    and "getRotationAtPercent R gate (easedProgress (elapsedFraction tnow (startTime b1)))
           (rotations b1, keyframes b1) = ((p, path), (r, kf))"
  shows "\<exists>new. trail (processQueue R tpop tnow b) = fadeTrail (trail b @ new)
     \<and> length new = card {a \<in> set path. ref (kf a) = None}
     \<and> distinct (map meshId new)
     \<and> (\<forall>m \<in> set new. meshCount b \<le> meshId m)
     \<and> (\<forall>a \<in> set path. ref (kf a) = None \<longrightarrow>
          (\<exists>m \<in> set new. ref (keyframes (processQueue R tpop tnow b) a) = Some (meshId m)
              \<and> position m = AppliedQuaternion (Vector3 0 5 0) (pos (kf a)))
          \<and> pos (keyframes (processQueue R tpop tnow b) a) = pos (kf a))
     \<and> (\<forall>m \<in> set new. \<exists>a \<in> set path. ref (kf a) = None
            \<and> ref (keyframes (processQueue R tpop tnow b) a) = Some (meshId m))
     \<and> (\<forall>a. ref (kf a) \<noteq> None \<longrightarrow> keyframes (processQueue R tpop tnow b) a = kf a)
     \<and> (\<forall>a. a \<notin> set path \<longrightarrow> keyframes (processQueue R tpop tnow b) a = kf a)"
proof -
  let ?b2 = "b1\<lparr>rotations := r, keyframes := kf\<rparr>"
  have b2: "keyframes ?b2 = kf" "trail ?b2 = trail b" "meshCount ?b2 = meshCount b"
    using popGate_keeps [OF assms(1)] by simp_all
  have kfs: "keyframes (processQueue R tpop tnow b) = keyframes (drawPath path ?b2)"
    by (rule processQueue_draws(1) [OF assms])
  have tr: "trail (processQueue R tpop tnow b) = fadeTrail (trail (drawPath path ?b2))"
    by (rule processQueue_draws(2) [OF assms])
  obtain new where new: "trail (drawPath path ?b2) = trail ?b2 @ new"
    "map meshId new = [meshCount ?b2..<meshCount ?b2 + length new]"
    using drawPath_trail [of path ?b2] by blast
  have drop: "drop (length (trail b)) (trail (drawPath path ?b2)) = new"
    using new(1) b2(2) by simp
  have "trail (processQueue R tpop tnow b) = fadeTrail (trail b @ new)"
    unfolding tr new(1) b2 ..
  moreover have "length new = card {a \<in> set path. ref (kf a) = None}"
    using drawPath_count [of path ?b2] new(1) unfolding b2 by simp
  moreover have "distinct (map meshId new)"
    using new(2) by simp
  moreover have "\<forall>m \<in> set new. meshCount b \<le> meshId m"
  proof
    fix m assume "m \<in> set new"
    then have "meshId m \<in> set (map meshId new)" by simp
    then show "meshCount b \<le> meshId m" unfolding new(2) b2 by simp
  qed
  moreover have "\<forall>a \<in> set path. ref (kf a) = None \<longrightarrow>
          (\<exists>m \<in> set new. ref (keyframes (processQueue R tpop tnow b) a) = Some (meshId m)
              \<and> position m = AppliedQuaternion (Vector3 0 5 0) (pos (kf a)))
          \<and> pos (keyframes (processQueue R tpop tnow b) a) = pos (kf a)"
    using drawPath_records [of _ path ?b2] drawPath_pos [of path ?b2]
    unfolding kfs b2 drop by blast
  moreover have "\<forall>m \<in> set new. \<exists>a \<in> set path. ref (kf a) = None
            \<and> ref (keyframes (processQueue R tpop tnow b) a) = Some (meshId m)"
    using drawPath_new_recorded [of _ ?b2 path] unfolding kfs b2 drop by blast
  moreover have "\<forall>a. ref (kf a) \<noteq> None \<longrightarrow> keyframes (processQueue R tpop tnow b) a = kf a"
    using drawPath_keeps_set [of ?b2 _ path] unfolding kfs b2 by blast
  moreover have "\<forall>a. a \<notin> set path \<longrightarrow> keyframes (processQueue R tpop tnow b) a = kf a"
    using drawPath_off_path [of _ path ?b2] unfolding kfs b2 by blast
  ultimately show ?thesis by blast
qed

theorem frame_draws_markers_witness:
  "(let b = (newBlochRenderer sampleRotations)
              \<lparr>gateQueue := [(''x'', pi)],
               keyframes := (\<lambda>a. \<lparr>pos = identityQuaternion,
                                   ref = (if a = 1 then Some 7 else None)\<rparr>)\<rparr>;
        b' = processQueue sampleRotations 0 0 b
    in (\<exists>new. trail b' = fadeTrail (trail b @ new) \<and> length new = 1
          \<and> (\<exists>m \<in> set new. ref (keyframes b' 0) = Some (meshId m)))
       \<and> keyframes b' 1 = keyframes b 1)"
proof -
  let ?kf = "\<lambda>a::nat. \<lparr>pos = identityQuaternion, ref = (if a = 1 then Some (7::nat) else None)\<rparr>"
  let ?b = "(newBlochRenderer sampleRotations)\<lparr>gateQueue := [(''x'', pi)], keyframes := ?kf\<rparr>"
  let ?b1 = "?b\<lparr>gateQueue := [], currentGate := Some (''x'', pi), startTime := 0\<rparr>"
  have pop: "popGate 0 ?b = Some ((''x'', pi), ?b1)"
    by (simp add: popGate_def newBlochRenderer_fields)
  have eng: "getRotationAtPercent sampleRotations (''x'', pi)
               (easedProgress (elapsedFraction 0 (startTime ?b1))) (rotations ?b1, keyframes ?b1)
             = ((identityQuaternion, [0, 1, 0]), (rotations ?b1, ?kf))"
    by (simp add: sample_simps)
  have s: "{a \<in> set [0, 1, 0]. ref (?kf a) = None} = {0}"
    by auto
  have c: "card {a \<in> set [0, 1, 0]. ref (?kf a) = None} = 1"
    unfolding s by simp
  have u: "ref (?kf 0) = None" "ref (?kf 1) \<noteq> None" "(0::nat) \<in> set [0, 1, 0]"
    "keyframes ?b 1 = ?kf 1"
    by simp_all
  let ?b' = "processQueue sampleRotations 0 0 ?b"
  from frame_draws_markers [OF pop eng, unfolded c]
  obtain new where n: "trail ?b' = fadeTrail (trail ?b @ new)" "length new = 1"
    and rec: "\<forall>a \<in> set [0, 1, 0]. ref (?kf a) = None \<longrightarrow>
          (\<exists>m \<in> set new. ref (keyframes ?b' a) = Some (meshId m)
              \<and> position m = AppliedQuaternion (Vector3 0 5 0) (pos (?kf a)))
          \<and> pos (keyframes ?b' a) = pos (?kf a)"
    and keep: "\<forall>a. ref (?kf a) \<noteq> None \<longrightarrow> keyframes ?b' a = ?kf a"
    by (elim exE conjE)
  from rec [rule_format, OF u(3) u(1)]
  have "\<exists>m \<in> set new. ref (keyframes ?b' 0) = Some (meshId m)" by (elim conjE bexE) (rule bexI)
  moreover from keep [rule_format, OF u(2)] u(4)
  have "keyframes ?b' 1 = keyframes ?b 1" by simp
  ultimately show ?thesis
    unfolding Let_def using n by (intro conjI exI [of _ new]) assumption+
qed

section \<open>Properties of the component\<close>

lemma rotateGate_renderer:
  assumes "renderer c = Some b"
  shows "renderer (rotateGate R ''X'' tpop tnow c) = Some (rotateX R pi tpop tnow b)
       \<and> renderer (rotateGate R ''Y'' tpop tnow c) = Some (rotateY R pi tpop tnow b)
       \<and> renderer (rotateGate R ''Z'' tpop tnow c) = Some (rotateZ R pi tpop tnow b)
       \<and> renderer (rotateGate R ''H'' tpop tnow c) = Some (rotateH R pi tpop tnow b)
       \<and> renderer (rotateGate R ''S'' tpop tnow c) = Some (rotateZ R (pi / 2) tpop tnow b)
       \<and> renderer (rotateGate R ''T'' tpop tnow c) = Some (rotateZ R (pi / 4) tpop tnow b)"
  using assms by (simp add: rotateGate_def Let_def)

lemma sample_rotate_inFlight:
  "inFlight (rotateX sampleRotations angle 0 0 (newBlochRenderer sampleRotations)) = [(''x'', angle)]"
  "inFlight (rotateY sampleRotations angle 0 0 (newBlochRenderer sampleRotations)) = [(''y'', angle)]"
  "inFlight (rotateZ sampleRotations angle 0 0 (newBlochRenderer sampleRotations)) = [(''z'', angle)]"
  "inFlight (rotateH sampleRotations angle 0 0 (newBlochRenderer sampleRotations)) = [(''h'', angle)]"
  by (simp_all add: rotateX_def rotateY_def rotateZ_def rotateH_def sample_simps inFlight_def
      queueGate_fields newBlochRenderer_fields eased_values)

text \<open>
  C4. With a renderer in place, \<open>rotate\<close> asks it for the rotation of the gate named:
  \<open>rotateX\<close> by \<open>pi\<close> for X, \<open>rotateY\<close> by \<open>pi\<close> for Y, \<open>rotateZ\<close> by \<open>pi\<close> for Z,
  \<open>rotateH\<close> by \<open>pi\<close> for H, \<open>rotateZ\<close> by \<open>pi / 2\<close> for S and \<open>rotateZ\<close> by \<open>pi / 4\<close>
  for T; and each of the renderer's four methods queues the gate that the engine's method
  of the same axis returns for that angle.
\<close>

theorem rotate_dispatch:
  assumes "renderer c = Some b"
  shows "renderer (rotateGate R ''X'' tpop tnow c) = Some (rotateX R pi tpop tnow b)
       \<and> renderer (rotateGate R ''Y'' tpop tnow c) = Some (rotateY R pi tpop tnow b)
       \<and> renderer (rotateGate R ''Z'' tpop tnow c) = Some (rotateZ R pi tpop tnow b)
       \<and> renderer (rotateGate R ''H'' tpop tnow c) = Some (rotateH R pi tpop tnow b)
       \<and> renderer (rotateGate R ''S'' tpop tnow c) = Some (rotateZ R (pi / 2) tpop tnow b)
       \<and> renderer (rotateGate R ''T'' tpop tnow c) = Some (rotateZ R (pi / 4) tpop tnow b)
       \<and> rotateX R angle tpop tnow b =
           (case rotationsRotateX R angle (rotations b, keyframes b) of
              (gate, r, kf) \<Rightarrow> queueGate R gate tpop tnow (b\<lparr>rotations := r, keyframes := kf\<rparr>))
       \<and> rotateY R angle tpop tnow b =
           (case rotationsRotateY R angle (rotations b, keyframes b) of
              (gate, r, kf) \<Rightarrow> queueGate R gate tpop tnow (b\<lparr>rotations := r, keyframes := kf\<rparr>))
       \<and> rotateZ R angle tpop tnow b =
           (case rotationsRotateZ R angle (rotations b, keyframes b) of
              (gate, r, kf) \<Rightarrow> queueGate R gate tpop tnow (b\<lparr>rotations := r, keyframes := kf\<rparr>))
       \<and> rotateH R angle tpop tnow b =
           (case rotationsRotateH R angle (rotations b, keyframes b) of
              (gate, r, kf) \<Rightarrow> queueGate R gate tpop tnow (b\<lparr>rotations := r, keyframes := kf\<rparr>))"
  using rotateGate_renderer [OF assms, of R tpop tnow]
  by (simp add: rotateX_def rotateY_def rotateZ_def rotateH_def)

theorem rotate_dispatch_witness:
  "map (\<lambda>name. map_option inFlight
          (renderer (rotateGate sampleRotations name 0 0 (mountBlochSphere sampleRotations []))))
       [''X'', ''Y'', ''Z'', ''H'', ''S'', ''T'']
   = [Some [(''x'', pi)], Some [(''y'', pi)], Some [(''z'', pi)], Some [(''h'', pi)],
      Some [(''z'', pi / 2)], Some [(''z'', pi / 4)]]"
proof -
  have r: "renderer (mountBlochSphere sampleRotations [])
             = Some (newBlochRenderer sampleRotations)"
    by (simp add: mountBlochSphere_def)
  from rotate_dispatch [OF r, where R = sampleRotations and tpop = 0 and tnow = 0]
  have "renderer (rotateGate sampleRotations ''X'' 0 0 (mountBlochSphere sampleRotations []))
          = Some (rotateX sampleRotations pi 0 0 (newBlochRenderer sampleRotations))
      \<and> renderer (rotateGate sampleRotations ''Y'' 0 0 (mountBlochSphere sampleRotations []))
          = Some (rotateY sampleRotations pi 0 0 (newBlochRenderer sampleRotations))
      \<and> renderer (rotateGate sampleRotations ''Z'' 0 0 (mountBlochSphere sampleRotations []))
          = Some (rotateZ sampleRotations pi 0 0 (newBlochRenderer sampleRotations))
      \<and> renderer (rotateGate sampleRotations ''H'' 0 0 (mountBlochSphere sampleRotations []))
          = Some (rotateH sampleRotations pi 0 0 (newBlochRenderer sampleRotations))
      \<and> renderer (rotateGate sampleRotations ''S'' 0 0 (mountBlochSphere sampleRotations []))
          = Some (rotateZ sampleRotations (pi / 2) 0 0 (newBlochRenderer sampleRotations))
      \<and> renderer (rotateGate sampleRotations ''T'' 0 0 (mountBlochSphere sampleRotations []))
          = Some (rotateZ sampleRotations (pi / 4) 0 0 (newBlochRenderer sampleRotations))"
    by blast
  then show ?thesis
    by (simp add: sample_rotate_inFlight)
qed

text \<open>Whatever the name, \<open>rotate\<close> ends by appending it to \<open>gates\<close> (line 591).\<close>

lemma rotateGate_gates: "gates (rotateGate R gate tpop tnow c) = gates c @ [gate]"
  by (simp add: rotateGate_def Let_def split_beta split: option.splits)

text \<open>
  C2 states that \<open>rotate\<close> with a name other than X, Y, Z, S, T and H changes nothing
  but the console: one diagnostic is written, and the state vector, the trail, the gate
  queue and the history of gate names stay as they were. The code does all of this except
  the last: the default branch does not return, and line 591 appends the name. On a
  freshly mounted component, \<open>rotate("Q")\<close> writes one line to the console and leaves the
  state vector, the equations and the renderer (its trail and gate queue included) as
  they were, but the list of gate names, shown as applied, now holds \<open>Q\<close>.
\<close>

theorem unknown_gate_enters_history:
  "(let c = mountBlochSphere R [];
        c' = rotateGate R ''Q'' tpop tnow c
    in gates c' = [''Q''] \<and> consoleErrors c' = [''Unknown gate: Q'']
       \<and> state c' = state c \<and> gateArray c' = gateArray c \<and> renderer c' = renderer c)"
  by (simp add: rotateGate_def Let_def mountBlochSphere_def vec2_def)

text \<open>
  C1 states that after \<open>reset()\<close> the pending gates are gone, no gate is active, the
  trail is empty, the state vector is \<open>(1, 0)\<close> and the queue is idle. The code resets
  the state vector and the trail but never touches the queue. On a freshly mounted
  component, press X, press Y before the first frame after that, then reset: the state
  vector is \<open>(1, 0)\<close>, the gate names and equations are gone, the trail is empty and the
  qubit is turned back; but the renderer still has the X rotation as its active gate, the
  Y rotation pending and a callback scheduled, and the frame that runs next goes on
  animating the X rotation. This holds for every rotation engine: \<open>rotations.reset()\<close>
  has no access to the queue.
\<close>

theorem reset_leaves_queue_running:
  "(let c = reset R (rotateGate R ''Y'' 10 10 (rotateGate R ''X'' 0 0 (mountBlochSphere R [])))
    in state c = (1, 0) \<and> gates c = [] \<and> gateArray c = []
       \<and> (\<exists>b gx gy. renderer c = Some b \<and> trail b = [] \<and> qubit b = identityQuaternion
             \<and> currentGate b = Some gx \<and> gateQueue b = [gy] \<and> animationCallbackId b \<noteq> 0
             \<and> frameShown tpop 20 b = [(gx, easedProgress (elapsedFraction 20 0))]))"
proof -
  let ?mounted = "mountBlochSphere R []"
  let ?fresh = "newBlochRenderer R"
  let ?bX = "rotateX R pi 0 0 ?fresh"
  let ?cX = "rotateGate R ''X'' 0 0 ?mounted"
  let ?bY = "rotateY R pi 10 10 ?bX"
  let ?cY = "rotateGate R ''Y'' 10 10 ?cX"
  let ?final = "reset R ?cY"
  have r0: "renderer ?mounted = Some ?fresh" by (simp add: mountBlochSphere_def)
  have r1: "renderer ?cX = Some ?bX" using rotateGate_renderer [OF r0] by blast
  have r2: "renderer ?cY = Some ?bY" using rotateGate_renderer [OF r1] by blast
  have r: "renderer ?final = Some (rendererReset R ?bY)"
    using r2 by (simp add: reset_def Let_def)
  have c: "state ?final = (1, 0)" "gates ?final = []" "gateArray ?final = []"
    by (simp_all add: reset_def Let_def vec2_def Ket0_def split: option.splits)
  let ?gx = "fst (rotationsRotateX R pi (rotations ?fresh, keyframes ?fresh))"
  let ?gy = "fst (rotationsRotateY R pi (rotations ?bX, keyframes ?bX))"
  have b1: "currentGate ?bX = Some ?gx" "gateQueue ?bX = []"
    "animationCallbackId ?bX \<noteq> 0" "startTime ?bX = 0"
    by (simp_all add: rotateX_def split_beta queueGate_fields newBlochRenderer_fields
        eased_values)
  have b2: "currentGate ?bY = Some ?gx" "gateQueue ?bY = [?gy]"
    "animationCallbackId ?bY \<noteq> 0" "startTime ?bY = 0"
    using b1 by (simp_all add: rotateY_def split_beta queueGate_fields)
  have "frameShown tpop 20 (rendererReset R ?bY) = [(?gx, easedProgress (elapsedFraction 20 0))]"
    using b2 by (simp add: frameShown_eval rendererReset_fields)
  with r c b2 show ?thesis
    unfolding Let_def by (simp add: rendererReset_fields)
qed

end
